theory Spec2Isabelle
  imports Main "HOL-Library.AList"
begin

section \<open>JavaScript values\<close>

text \<open>
  The values the framework handles. Numbers are the integers among JavaScript's numbers.
  A function is known by an identifier; the framework stores functions and calls them, it
  never looks inside. A DOM node is known by its handle. A plain object is the list of its
  own properties in creation order; an array is the list of its elements.

  Model objects carry data: a method call on a value (\<open>toString\<close>, \<open>forEach\<close>,
  \<open>startsWith\<close>) reaches the built-in method of the value's type, never an own
  property of that name, and every object inherits from \<open>Object.prototype\<close>.
\<close>

datatype jsval =
    JUndefined
  | JNull
  | JBool bool
  | JNum int
  | JStr string
  | JFun nat
  | JNode nat
  | JArr "jsval list"
  | JObj "(string \<times> jsval) list"

datatype js_error =
    Error string
  | TypeError string
  | InvalidCharacterError string

fun typeof :: "jsval \<Rightarrow> string" where
  "typeof JUndefined = ''undefined''"
| "typeof JNull = ''object''"
| "typeof (JBool b) = ''boolean''"
| "typeof (JNum n) = ''number''"
| "typeof (JStr s) = ''string''"
| "typeof (JFun f) = ''function''"
| "typeof (JNode n) = ''object''"
| "typeof (JArr xs) = ''object''"
| "typeof (JObj kvs) = ''object''"

text \<open>ToBoolean: what \<open>!v\<close>, \<open>v && ...\<close> and \<open>if (v)\<close> test.\<close>

fun truthy :: "jsval \<Rightarrow> bool" where
  "truthy JUndefined = False"
| "truthy JNull = False"
| "truthy (JBool b) = b"
| "truthy (JNum n) = (n \<noteq> 0)"
| "truthy (JStr s) = (s \<noteq> [])"
| "truthy (JFun f) = True"
| "truthy (JNode n) = True"
| "truthy (JArr xs) = True"
| "truthy (JObj kvs) = True"

fun isArray :: "jsval \<Rightarrow> bool" where
  "isArray (JArr xs) = True"
| "isArray v = False"

text \<open>\<open>v instanceof Object\<close>: every object, function, array and node; no primitive.\<close>

fun instanceof_Object :: "jsval \<Rightarrow> bool" where
  "instanceof_Object (JFun f) = True"
| "instanceof_Object (JNode n) = True"
| "instanceof_Object (JArr xs) = True"
| "instanceof_Object (JObj kvs) = True"
| "instanceof_Object v = False"

subsection \<open>Decimal rendering of array indices and numbers\<close>

definition digit_char :: "nat \<Rightarrow> char" where
  "digit_char d = ''0123456789'' ! d"

function dec :: "nat \<Rightarrow> string" where
  "dec n = (if n < 10 then [digit_char n] else dec (n div 10) @ [digit_char (n mod 10)])"
  by pat_completeness auto
termination
  by (relation "measure (\<lambda>n. n)") auto

declare dec.simps [simp del]

definition int_to_string :: "int \<Rightarrow> string" where
  "int_to_string i = (if i < 0 then CHR ''-'' # dec (nat (- i)) else dec (nat i))"

subsection \<open>Own properties\<close>

text \<open>
  The own enumerable string-keyed properties of a value, as \<open>Object.entries\<close> and
  object spread see them: an object's properties (one per key), an array's elements under
  their decimal indices, nothing for a function, a node or a primitive other than a
  string. Properties are listed in creation order; that JavaScript lists integer-like
  keys of an object first is not modelled.
\<close>

definition array_entries :: "jsval list \<Rightarrow> (string \<times> jsval) list" where
  "array_entries xs = zip (map dec [0..<length xs]) xs"

fun own_entries :: "jsval \<Rightarrow> (string \<times> jsval) list" where
  "own_entries (JObj kvs) = AList.clearjunk kvs"
| "own_entries (JArr xs) = array_entries xs"
| "own_entries (JStr s) = array_entries (map (\<lambda>c. JStr [c]) s)"
| "own_entries v = []"

text \<open>
  Reading a property \<open>v.k\<close> of a non-null, non-undefined value. A missing property reads
  as \<open>undefined\<close>. The getters of a DOM node (\<open>id\<close>, \<open>innerText\<close>, \<open>attributes\<close>,
  \<open>children\<close>) are outside this model and read as \<open>undefined\<close>; a node has no
  \<open>tag\<close> property.
\<close>

fun get_prop :: "jsval \<Rightarrow> string \<Rightarrow> jsval" where
  "get_prop (JObj kvs) k = (case map_of kvs k of Some v \<Rightarrow> v | None \<Rightarrow> JUndefined)"
| "get_prop (JArr xs) k =
     (if k = ''length'' then JNum (int (length xs))
      else case map_of (array_entries xs) k of Some v \<Rightarrow> v | None \<Rightarrow> JUndefined)"
| "get_prop (JStr s) k =
     (if k = ''length'' then JNum (int (length s))
      else case map_of (array_entries (map (\<lambda>c. JStr [c]) s)) k of
             Some v \<Rightarrow> v | None \<Rightarrow> JUndefined)"
| "get_prop v k = JUndefined"

text \<open>
  Object spread \<open>{ ...target, ...src }\<close>, one source at a time: every own property of
  the source is defined on the target, replacing the value of a key already there (at its
  place) and appending a new key.
\<close>

definition spread :: "(string \<times> jsval) list \<Rightarrow> jsval \<Rightarrow> (string \<times> jsval) list" where
  "spread target src = fold (\<lambda>(k, v). AList.update k v) (own_entries src) target"

section \<open>The world: store, router, document\<close>

text \<open>
  What the code does to its environment, in order: a call of a consumer's function (with
  its arguments), a line on the console, an entry pushed on the browser history. The
  consumer's functions are not part of the framework; a call is recorded and has no
  further effect on the state modelled here.
\<close>

datatype effect =
    Called nat "jsval list"
  | Logged "jsval list"
  | Pushed string

record dom_node =
  localName :: string
  textContent :: string
  attrs :: "(string \<times> string) list"
  checkedProp :: "bool option"
  eventListeners :: "(string \<times> nat) list"
  childNodes :: "nat list"

text \<open>
  \<open>store_state\<close>, \<open>listeners\<close>, \<open>updateCallback\<close>: the fields of \<open>globalStorage\<close>
  (class \<open>State\<close>); the constructor admits only functions as listeners.
  \<open>allRoutes\<close>: the exported \<open>Map\<close> of state.js. \<open>location_hash\<close>:
  \<open>window.location.hash\<close>. \<open>nodes\<close>, \<open>next_node\<close>: the nodes of the document by
  handle, and the handle \<open>document.createElement\<close> gives next.
  \<open>virtualToDomMap\<close>, \<open>domToVirtualMap\<close>: the two tables of dom.js.
\<close>

record world =
  store_state :: "(string \<times> jsval) list"
  listeners :: "nat list"
  updateCallback :: jsval
  allRoutes :: "string \<rightharpoonup> nat"
  location_hash :: string
  trace :: "effect list"
  nodes :: "nat \<Rightarrow> dom_node"
  next_node :: nat
  virtualToDomMap :: "jsval \<rightharpoonup> nat"
  domToVirtualMap :: "nat \<rightharpoonup> jsval"

definition emit :: "effect \<Rightarrow> world \<Rightarrow> world" where
  "emit e w = w\<lparr>trace := trace w @ [e]\<rparr>"

section \<open>state.js: the reactive store\<close>

definition getState :: "world \<Rightarrow> jsval" where
  "getState w = JObj (store_state w)"

definition setUpdateCallback :: "jsval \<Rightarrow> world \<Rightarrow> world" where
  "setUpdateCallback callback w = w\<lparr>updateCallback := callback\<rparr>"

text \<open>\<open>update()\<close>: every listener is called, in order, with no argument.\<close>

definition update :: "world \<Rightarrow> world" where
  "update w = fold (\<lambda>listener. emit (Called listener [])) (listeners w) w"

text \<open>
  \<open>setState(newVal, triggerUpdate = true)\<close>. The default applies when the argument is
  \<open>undefined\<close>. Calling an update callback that is truthy and not a function is a
  TypeError, raised after the state has been replaced and the listeners have run.
\<close>

definition setState :: "jsval \<Rightarrow> jsval \<Rightarrow> world \<Rightarrow> (js_error + bool) \<times> world" where
  "setState newVal triggerUpdate w =
     (if typeof newVal \<noteq> ''object'' \<or> newVal = JNull then (Inr False, w)
      else
        let w1 = w\<lparr>store_state := spread (spread [] (JObj (store_state w))) newVal\<rparr>;
            trigger = (if triggerUpdate = JUndefined then JBool True else triggerUpdate)
        in if truthy trigger then
             (let w2 = update w1 in
              if truthy (updateCallback w2) then
                (case updateCallback w2 of
                   JFun f \<Rightarrow> (Inr True, emit (Called f []) w2)
                 | _ \<Rightarrow> (Inl (TypeError ''this.updateCallback is not a function''), w2))
              else (Inr True, w2))
           else (Inr True, w1))"

section \<open>route.js: the router\<close>

definition addRoute :: "jsval \<Rightarrow> jsval \<Rightarrow> world \<Rightarrow> bool \<times> world" where
  "addRoute url handler w =
     (case (url, handler) of
        (JStr u, JFun h) \<Rightarrow>
          (if allRoutes w u \<noteq> None then (False, w)
           else (True, w\<lparr>allRoutes := (allRoutes w)(u \<mapsto> h)\<rparr>))
      | _ \<Rightarrow> (False, w))"

definition startsWith_hash :: "string \<Rightarrow> bool" where
  "startsWith_hash s = (take 1 s = ''#'')"

text \<open>
  \<open>history.pushState(null, "", hashUrl)\<close>: one more history entry, and the fragment of the
  location becomes that of \<open>hashUrl\<close>; \<open>location.hash\<close> reads an empty fragment as the
  empty string. Percent-encoding of the fragment is not modelled.
\<close>

definition pushState :: "string \<Rightarrow> world \<Rightarrow> world" where
  "pushState hashUrl w =
     (emit (Pushed hashUrl) w)\<lparr>location_hash := (if hashUrl = ''#'' then '''' else hashUrl)\<rparr>"

definition executeRoute :: "jsval \<Rightarrow> world \<Rightarrow> (js_error + unit) \<times> world" where
  "executeRoute url w =
     (case url of
        JStr u \<Rightarrow>
          (let cleanUrl0 = (if startsWith_hash u then drop 1 u else u);
               cleanUrl = (if allRoutes w cleanUrl0 = None then ''/'' else cleanUrl0);
               w1 = (case allRoutes w cleanUrl of
                       Some h \<Rightarrow> emit (Called h []) w
                     | None \<Rightarrow> emit (Logged [JStr ''No handler found for route:'', JStr cleanUrl]) w);
               hashUrl = (if startsWith_hash cleanUrl then cleanUrl else CHR ''#'' # cleanUrl)
           in if location_hash w1 \<noteq> hashUrl then (Inr (), pushState hashUrl w1)
              else (Inr (), w1))
      | _ \<Rightarrow> (Inl (TypeError ''url.startsWith is not a function''), w))"

section \<open>dom.js: the element model\<close>

text \<open>
  The test applied to each child in the loop of \<open>createVirtualElement\<close>. The disjunction
  is evaluated left to right and stops at the first true disjunct, so no property of a
  non-object or of \<open>null\<close> is read.
\<close>

definition child_rejected :: "jsval \<Rightarrow> bool" where
  "child_rejected child =
     (typeof child \<noteq> ''object''
      \<or> child = JNull
      \<or> typeof (get_prop child ''tag'') \<noteq> ''string''
      \<or> \<not> (truthy (get_prop child ''attributes'')
             \<and> instanceof_Object (get_prop child ''attributes''))
      \<or> \<not> truthy (get_prop child ''children'')
      \<or> \<not> isArray (get_prop child ''children''))"

text \<open>
  The loop over the children. A rejected child is logged by two \<open>console.log\<close> calls
  before the \<open>Error\<close> is thrown; the second one reads \<open>child.children\<close>, which is itself a
  TypeError when the child is \<open>null\<close> or \<open>undefined\<close>.
\<close>

fun check_children :: "jsval list \<Rightarrow> world \<Rightarrow> (js_error + unit) \<times> world" where
  "check_children [] w = (Inr (), w)"
| "check_children (child # rest) w =
     (if child_rejected child then
        (let w1 = emit (Logged [JStr (typeof child), child]) w in
         if child = JNull \<or> child = JUndefined then
           (Inl (TypeError ''Cannot read properties of null or undefined''), w1)
         else
           (Inl (Error ''Error: each child must be a virtual element with tag, attributes, and children:''),
            emit (Logged [JStr (typeof (get_prop child ''children'')),
                          get_prop child ''children'']) w1))
      else check_children rest w)"

fun array_elements :: "jsval \<Rightarrow> jsval list" where
  "array_elements (JArr xs) = xs"
| "array_elements v = []"

definition createVirtualElement ::
    "jsval \<Rightarrow> jsval \<Rightarrow> jsval \<Rightarrow> jsval \<Rightarrow> world \<Rightarrow> (js_error + jsval) \<times> world" where
  "createVirtualElement tag attributes innerText children w =
     (if \<not> truthy tag \<or> typeof tag \<noteq> ''string'' then
        (Inl (Error ''Error: tag is not a string''), w)
      else if \<not> truthy attributes \<or> typeof attributes \<noteq> ''object'' \<or> attributes = JNull then
        (Inl (Error ''Error: attributes are not an object''), w)
      else if truthy innerText \<and> typeof innerText \<noteq> ''string'' then
        (Inl (Error ''Error: innerText is not a string''), w)
      else if \<not> truthy children \<or> \<not> isArray children then
        (Inl (Error ''Error: children is not an array''), w)
      else
        (case check_children (array_elements children) w of
           (Inl e, w') \<Rightarrow> (Inl e, w')
         | (Inr u, w') \<Rightarrow>
             (Inr (JObj [(''tag'', tag), (''attributes'', attributes),
                         (''innerText'', innerText), (''children'', children)]), w')))"

section \<open>dom.js: the renderer\<close>

subsection \<open>The document, as far as the renderer uses it\<close>

text \<open>
  Lower-casing of the ASCII letters (\<open>toLowerCase\<close>, and the lower-casing an HTML document
  applies to element and attribute names).
\<close>

definition to_lower_char :: "char \<Rightarrow> char" where
  "to_lower_char c =
     (case map_of (zip ''ABCDEFGHIJKLMNOPQRSTUVWXYZ'' ''abcdefghijklmnopqrstuvwxyz'') c of
        Some l \<Rightarrow> l
      | None \<Rightarrow> c)"

definition to_lower :: "string \<Rightarrow> string" where
  "to_lower s = map to_lower_char s"

text \<open>
  The names \<open>document.createElement\<close> and \<open>setAttribute\<close> accept (the \<open>Name\<close> production
  of XML, on ASCII): a letter, \<open>_\<close> or \<open>:\<close>, then letters, digits, \<open>_\<close>, \<open>:\<close>, \<open>-\<close> and
  \<open>.\<close>. Any other name is an \<open>InvalidCharacterError\<close>.
\<close>

definition name_start_char :: "char \<Rightarrow> bool" where
  "name_start_char c =
     (c \<in> set ''ABCDEFGHIJKLMNOPQRSTUVWXYZabcdefghijklmnopqrstuvwxyz_:'')"

definition name_char :: "char \<Rightarrow> bool" where
  "name_char c = (name_start_char c \<or> c \<in> set ''0123456789-.'')"

definition valid_name :: "string \<Rightarrow> bool" where
  "valid_name s = (case s of [] \<Rightarrow> False | c # cs \<Rightarrow> name_start_char c \<and> list_all name_char cs)"

text \<open>
  The string of a value (\<open>ToString\<close>, and \<open>toString()\<close> on a value that is neither
  \<open>null\<close> nor \<open>undefined\<close>). The source text of a function and the class name of a node
  are not modelled: a fixed text stands for each.
\<close>

fun join_comma :: "string list \<Rightarrow> string" where
  "join_comma [] = []"
| "join_comma [s] = s"
| "join_comma (s # t # rest) = s @ '','' @ join_comma (t # rest)"

fun js_toString :: "jsval \<Rightarrow> string" where
  "js_toString JUndefined = ''undefined''"
| "js_toString JNull = ''null''"
| "js_toString (JBool b) = (if b then ''true'' else ''false'')"
| "js_toString (JNum n) = int_to_string n"
| "js_toString (JStr s) = s"
| "js_toString (JFun f) = ''function () { [native code] }''"
| "js_toString (JNode n) = ''[object HTMLElement]''"
| "js_toString (JArr xs) =
     join_comma (map (\<lambda>x. if x = JUndefined \<or> x = JNull then [] else js_toString x) xs)"
| "js_toString (JObj kvs) = ''[object Object]''"

text \<open>A node as \<open>document.createElement\<close> returns it.\<close>

definition blank_node :: "string \<Rightarrow> dom_node" where
  "blank_node name =
     \<lparr>localName = name, textContent = [], attrs = [], checkedProp = None,
      eventListeners = [], childNodes = []\<rparr>"

definition update_node :: "nat \<Rightarrow> (dom_node \<Rightarrow> dom_node) \<Rightarrow> world \<Rightarrow> world" where
  "update_node n f w = w\<lparr>nodes := (nodes w)(n := f (nodes w n))\<rparr>"

text \<open>\<open>document.createElement(tagName)\<close>: a new node, with the next handle.\<close>

definition createElement :: "jsval \<Rightarrow> world \<Rightarrow> (js_error + nat) \<times> world" where
  "createElement tagName w =
     (if \<not> valid_name (js_toString tagName) then
        (Inl (InvalidCharacterError (js_toString tagName)), w)
      else
        (Inr (next_node w),
         w\<lparr>nodes := (nodes w)(next_node w := blank_node (to_lower (js_toString tagName))),
           next_node := Suc (next_node w)\<rparr>))"

text \<open>\<open>node.innerText = s\<close> and \<open>node.innerHTML = ""\<close>: the children go.\<close>

definition set_innerText :: "nat \<Rightarrow> string \<Rightarrow> world \<Rightarrow> world" where
  "set_innerText n s = update_node n (\<lambda>d. d\<lparr>textContent := s, childNodes := []\<rparr>)"

definition clear_innerHTML :: "nat \<Rightarrow> world \<Rightarrow> world" where
  "clear_innerHTML n = update_node n (\<lambda>d. d\<lparr>textContent := [], childNodes := []\<rparr>)"

text \<open>\<open>addEventListener\<close>: a listener already there for the event is not added again.\<close>

definition addEventListener :: "nat \<Rightarrow> string \<Rightarrow> nat \<Rightarrow> world \<Rightarrow> world" where
  "addEventListener n event f =
     update_node n (\<lambda>d. if (event, f) \<in> set (eventListeners d) then d
                         else d\<lparr>eventListeners := eventListeners d @ [(event, f)]\<rparr>)"

definition setAttribute :: "nat \<Rightarrow> string \<Rightarrow> string \<Rightarrow> world \<Rightarrow> (js_error + unit) \<times> world" where
  "setAttribute n name v w =
     (if \<not> valid_name name then (Inl (InvalidCharacterError name), w)
      else (Inr (), update_node n (\<lambda>d. d\<lparr>attrs := AList.update (to_lower name) v (attrs d)\<rparr>) w))"

definition removeAttribute :: "nat \<Rightarrow> string \<Rightarrow> world \<Rightarrow> world" where
  "removeAttribute n name =
     update_node n (\<lambda>d. d\<lparr>attrs := AList.delete (to_lower name) (attrs d)\<rparr>)"

definition set_checked :: "nat \<Rightarrow> bool \<Rightarrow> world \<Rightarrow> world" where
  "set_checked n b = update_node n (\<lambda>d. d\<lparr>checkedProp := Some b\<rparr>)"

text \<open>\<open>parent.appendChild(child)\<close>, for a child that has no parent yet.\<close>

definition appendChild :: "nat \<Rightarrow> nat \<Rightarrow> world \<Rightarrow> world" where
  "appendChild parent child =
     update_node parent (\<lambda>d. d\<lparr>childNodes := childNodes d @ [child]\<rparr>)"

subsection \<open>\<open>elementToHtmlElement\<close>\<close>

text \<open>One turn of the loop over \<open>Object.entries(elem.attributes)\<close>.\<close>

definition applyAttribute :: "nat \<Rightarrow> string \<times> jsval \<Rightarrow> world \<Rightarrow> (js_error + unit) \<times> world" where
  "applyAttribute returnElement entry w =
     (case entry of (attrName, attrValue) \<Rightarrow>
        (case (take 2 attrName = ''on'', attrValue) of
           (True, JFun f) \<Rightarrow>
             (Inr (), addEventListener returnElement (to_lower (drop 2 attrName)) f w)
         | _ \<Rightarrow>
             if attrName = ''checked'' then
               (if truthy attrValue then
                  setAttribute returnElement ''checked'' ''checked'' (set_checked returnElement True w)
                else
                  (Inr (), removeAttribute returnElement ''checked'' (set_checked returnElement False w)))
             else if attrValue \<noteq> JNull \<and> attrValue \<noteq> JUndefined then
               setAttribute returnElement attrName (js_toString attrValue) w
             else (Inr (), w)))"

fun applyAttributes :: "nat \<Rightarrow> (string \<times> jsval) list \<Rightarrow> world \<Rightarrow> (js_error + unit) \<times> world" where
  "applyAttributes returnElement [] w = (Inr (), w)"
| "applyAttributes returnElement (entry # rest) w =
     (case applyAttribute returnElement entry w of
        (Inl e, w') \<Rightarrow> (Inl e, w')
      | (Inr u, w') \<Rightarrow> applyAttributes returnElement rest w')"

text \<open>
  The part of \<open>elementToHtmlElement\<close> between the creation of the node and the loop over
  the children: both tables are written, the text is set, the attributes are checked and
  applied. The forward table is keyed by \<open>elem.id\<close>.
\<close>

definition decorate :: "nat \<Rightarrow> jsval \<Rightarrow> world \<Rightarrow> (js_error + unit) \<times> world" where
  "decorate returnElement elem w =
     (let w1 = w\<lparr>virtualToDomMap := (virtualToDomMap w)(get_prop elem ''id'' \<mapsto> returnElement),
                domToVirtualMap := (domToVirtualMap w)(returnElement \<mapsto> elem)\<rparr>;
          w2 = (if truthy (get_prop elem ''innerText'')
                then set_innerText returnElement (js_toString (get_prop elem ''innerText'')) w1
                else w1)
      in if \<not> truthy (get_prop elem ''attributes'')
            \<or> typeof (get_prop elem ''attributes'') \<noteq> ''object''
            \<or> get_prop elem ''attributes'' = JNull
            \<or> isArray (get_prop elem ''attributes'')
         then (Inl (Error ''Error: elem.attributes is not a plain object''), w2)
         else applyAttributes returnElement (own_entries (get_prop elem ''attributes'')) w2)"

text \<open>
  A property read from a value is smaller than the value: the recursion of
  \<open>elementToHtmlElement\<close> through \<open>elem.children\<close> ends.
\<close>

lemma size_map_of: "map_of kvs k = Some v \<Longrightarrow> size v < size (JObj kvs)"
  by (induction kvs) (auto split: if_splits)

lemma size_array_element: "x \<in> set xs \<Longrightarrow> size x < size (JArr xs)"
  by (induction xs) auto

lemma array_entries_in_set: "map_of (array_entries xs) k = Some v \<Longrightarrow> v \<in> set xs"
  unfolding array_entries_def by (auto dest!: map_of_SomeD dest: set_zip_rightD)

lemma get_prop_array_smaller: "get_prop v k = JArr cs \<Longrightarrow> size (JArr cs) < size v"
proof (cases v)
  case (JObj kvs)
  assume "get_prop v k = JArr cs"
  with JObj show ?thesis
    using size_map_of [of kvs k "JArr cs"] by (simp split: option.splits)
next
  case (JArr xs)
  assume "get_prop v k = JArr cs"
  with JArr have "JArr cs \<in> set xs"
    by (auto split: if_splits option.splits dest: array_entries_in_set)
  with JArr show ?thesis
    using size_array_element [of "JArr cs" xs] by simp
next
  case (JStr s)
  assume "get_prop v k = JArr cs"
  with JStr show ?thesis
    by (auto split: if_splits option.splits dest!: array_entries_in_set)
qed simp_all

text \<open>
  \<open>elementToHtmlElement(elem)\<close>, and the loop
  \<open>parent.appendChild(elementToHtmlElement(child))\<close> over a list of children, which is
  the body of \<open>elem.children.forEach\<close> and of the last loop of \<open>updateDom\<close>. No value
  of the model is a \<open>NamedNodeMap\<close>, so that test of the source is never true here.
\<close>

function elementToHtmlElement :: "jsval \<Rightarrow> world \<Rightarrow> (js_error + nat) \<times> world"
  and appendAll :: "nat \<Rightarrow> jsval list \<Rightarrow> world \<Rightarrow> (js_error + unit) \<times> world"
where
  "elementToHtmlElement elem w =
     (if typeof elem \<noteq> ''object'' then
        (Inl (Error (''Error: '' @ js_toString elem @ '' is not an object'')), w)
      else if elem = JNull then
        (Inl (TypeError ''Cannot read properties of null''), w)
      else
        (case createElement (get_prop elem ''tag'') w of
           (Inl e, w1) \<Rightarrow> (Inl e, w1)
         | (Inr returnElement, w1) \<Rightarrow>
             (case decorate returnElement elem w1 of
                (Inl e, w2) \<Rightarrow> (Inl e, w2)
              | (Inr u, w2) \<Rightarrow>
                  (case get_prop elem ''children'' of
                     JArr cs \<Rightarrow>
                       (case appendAll returnElement cs w2 of
                          (Inl e, w3) \<Rightarrow> (Inl e, w3)
                        | (Inr u, w3) \<Rightarrow> (Inr returnElement, w3))
                   | _ \<Rightarrow> (Inl (TypeError ''elem.children.forEach is not a function''), w2)))))"
| "appendAll parent [] w = (Inr (), w)"
| "appendAll parent (child # rest) w =
     (case elementToHtmlElement child w of
        (Inl e, w1) \<Rightarrow> (Inl e, w1)
      | (Inr node, w1) \<Rightarrow> appendAll parent rest (appendChild parent node w1))"
  by pat_completeness auto
termination
  by (relation "measure (\<lambda>x. case x of
            Inl (elem, w) \<Rightarrow> 2 * size elem
          | Inr (parent, cs, w) \<Rightarrow> 2 * size_list size cs + 1)")
     (auto dest: get_prop_array_smaller)

declare elementToHtmlElement.simps [simp del]

subsection \<open>\<open>updateDom\<close>\<close>

text \<open>
  \<open>updateDom(topElement, attachElements)\<close>, with the container given by its handle: both
  checks, then the forward table is cleared, the store is written with
  \<open>triggerUpdate = false\<close>, the container is emptied and the elements are materialized
  and appended one by one.
\<close>

definition updateDom :: "nat \<Rightarrow> jsval \<Rightarrow> world \<Rightarrow> (js_error + unit) \<times> world" where
  "updateDom topElement attachElements w =
     (if \<not> truthy attachElements \<or> \<not> isArray attachElements then
        (Inl (Error ''Error: attachElements is not an array''), w)
      else if list_ex (\<lambda>element. typeof element \<noteq> ''object'') (array_elements attachElements) then
        (Inl (Error ''Error: element is not an object''), w)
      else
        (case setState (JObj [(''vDOM'', attachElements), (''topElement'', JNode topElement)])
                (JBool False) (w\<lparr>virtualToDomMap := Map.empty\<rparr>) of
           (Inl e, w1) \<Rightarrow> (Inl e, w1)
         | (Inr b, w1) \<Rightarrow>
             appendAll topElement (array_elements attachElements) (clear_innerHTML topElement w1)))"

section \<open>The state after the modules have loaded\<close>

text \<open>
  \<open>new State()\<close> with no listeners, \<open>new Map()\<close> for the routes and for the forward
  table, \<open>new WeakMap()\<close> for the reverse table, no fragment in the location, and a
  document that holds \<open>document.body\<close> (handle 0) and nothing else.
\<close>

definition initial_world :: world where
  "initial_world =
     \<lparr>store_state = [], listeners = [], updateCallback = JNull, allRoutes = Map.empty,
      location_hash = [], trace = [], nodes = (\<lambda>n. blank_node ''body''), next_node = 1,
      virtualToDomMap = Map.empty, domToVirtualMap = Map.empty\<rparr>"

text \<open>
  A virtual element as \<open>createVirtualElement(tag, {}, "", children)\<close> returns it.
\<close>

definition plain_element :: "string \<Rightarrow> jsval list \<Rightarrow> jsval" where
  "plain_element tag children =
     JObj [(''tag'', JStr tag), (''attributes'', JObj []), (''innerText'', JStr []),
           (''children'', JArr children)]"

section \<open>The words of the specification\<close>

text \<open>
  Definitions that follow the specification, for comparison with the code.

  For \<open>executeRoute\<close>: stripping one leading fragment marker; the path with the marker
  it "always carries"; the path that is dispatched, which is the stripped one when it is
  registered and \<open>/\<close> otherwise.
\<close>

definition spec_strip_marker :: "string \<Rightarrow> string" where
  "spec_strip_marker u = (case u of c # rest \<Rightarrow> if c = CHR ''#'' then rest else u | [] \<Rightarrow> u)"

definition spec_with_marker :: "string \<Rightarrow> string" where
  "spec_with_marker p = (case p of c # rest \<Rightarrow> if c = CHR ''#'' then p else CHR ''#'' # p | [] \<Rightarrow> ''#'')"

definition spec_resolved_path :: "world \<Rightarrow> string \<Rightarrow> string" where
  "spec_resolved_path w u =
     (if spec_strip_marker u \<in> dom (allRoutes w) then spec_strip_marker u else ''/'')"

text \<open>
  The structural invariant of a VirtualElement tree: every node is an object with a
  non-empty string \<open>tag\<close>, an object for \<open>attributes\<close>, a text that is absent or a
  string, and an array of \<open>children\<close> that satisfy the same, at every depth.
\<close>

function spec_valid_tree :: "jsval \<Rightarrow> bool" where
  "spec_valid_tree v =
     ((case v of JObj kvs \<Rightarrow> True | _ \<Rightarrow> False)
      \<and> (case get_prop v ''tag'' of JStr s \<Rightarrow> s \<noteq> [] | _ \<Rightarrow> False)
      \<and> (case get_prop v ''attributes'' of JObj a \<Rightarrow> True | _ \<Rightarrow> False)
      \<and> (case get_prop v ''innerText'' of JUndefined \<Rightarrow> True | JStr s \<Rightarrow> True | _ \<Rightarrow> False)
      \<and> (case get_prop v ''children'' of JArr cs \<Rightarrow> list_all spec_valid_tree cs | _ \<Rightarrow> False))"
  by pat_completeness auto
termination
proof (relation "measure size")
  fix v :: jsval and cs c
  assume "get_prop v ''children'' = JArr cs" and "c \<in> set cs"
  then have "size c < size (JArr cs)" and "size (JArr cs) < size v"
    by (simp_all add: size_array_element get_prop_array_smaller del: jsval.size)
  then show "(c, v) \<in> measure size" by simp
qed simp

declare spec_valid_tree.simps [simp del]

section \<open>What a step leaves alone\<close>

text \<open>
  The part of the world outside the document and the renderer's tables; two worlds that
  differ in one node at most; the old part of the reverse table kept; and what the loop
  \<open>appendAll\<close> does to the parent: it gains new nodes, one for each child materialized,
  each registered for its child in the reverse table, all of them when the loop returns
  and fewer when it throws.
\<close>

definition outside_document ::
    "world \<Rightarrow> (string \<times> jsval) list \<times> nat list \<times> jsval \<times> (string \<rightharpoonup> nat) \<times> string \<times> effect list" where
  "outside_document w =
     (store_state w, listeners w, updateCallback w, allRoutes w, location_hash w, trace w)"

definition same_but_node :: "nat \<Rightarrow> world \<Rightarrow> world \<Rightarrow> bool" where
  "same_but_node n w w' =
     (next_node w' = next_node w \<and> domToVirtualMap w' = domToVirtualMap w
      \<and> virtualToDomMap w' = virtualToDomMap w \<and> (\<forall>m. m \<noteq> n \<longrightarrow> nodes w' m = nodes w m))"

definition appended :: "nat \<Rightarrow> jsval list \<Rightarrow> world \<Rightarrow> (js_error + unit) \<Rightarrow> world \<Rightarrow> bool" where
  "appended parent cs w r w' =
     (\<exists>ns. nodes w' parent = (nodes w parent)\<lparr>childNodes := childNodes (nodes w parent) @ ns\<rparr>
         \<and> (\<forall>n \<in> set ns. next_node w \<le> n \<and> n < next_node w')
         \<and> (\<forall>i < length ns. domToVirtualMap w' (ns ! i) = Some (cs ! i))
         \<and> distinct ns
         \<and> length ns \<le> length cs
         \<and> ((\<exists>u. r = Inr u) \<longleftrightarrow> length ns = length cs))"

definition keeps_old :: "world \<Rightarrow> world \<Rightarrow> bool" where
  "keeps_old w w' =
     (next_node w \<le> next_node w'
      \<and> (\<forall>m < next_node w. domToVirtualMap w' m = domToVirtualMap w m))"

section \<open>Properties of the value model\<close>

lemma digit_char_inj: "d < 10 \<Longrightarrow> e < 10 \<Longrightarrow> digit_char d = digit_char e \<Longrightarrow> d = e"
  unfolding digit_char_def
  by (subst (asm) nth_eq_iff_index_eq) simp_all

lemma dec_nonempty: "dec n \<noteq> []"
  by (subst dec.simps) simp

lemma dec_inj: "dec n = dec m \<Longrightarrow> n = m"
proof (induction n arbitrary: m rule: dec.induct)
  case (1 n)
  show ?case
  proof (cases "n < 10")
    case n: True
    show ?thesis
    proof (cases "m < 10")
      case True
      with n "1.prems" show ?thesis
        by (simp add: dec.simps [of n] dec.simps [of m] digit_char_inj)
    next
      case False
      with n "1.prems" dec_nonempty [of "m div 10"] show ?thesis
        by (simp add: dec.simps [of n] dec.simps [of m])
    qed
  next
    case n: False
    show ?thesis
    proof (cases "m < 10")
      case True
      with n "1.prems" dec_nonempty [of "n div 10"] show ?thesis
        by (simp add: dec.simps [of n] dec.simps [of m])
    next
      case False
      with n "1.prems" have a: "dec (n div 10) = dec (m div 10)"
        and b: "digit_char (n mod 10) = digit_char (m mod 10)"
        by (simp_all add: dec.simps [of n] dec.simps [of m])
      from a n have "n div 10 = m div 10" by (rule "1.IH" [rotated]) 
      moreover from b have "n mod 10 = m mod 10" by (simp add: digit_char_inj)
      ultimately show ?thesis by (metis div_mult_mod_eq)
    qed
  qed
qed

lemma distinct_dec_keys: "distinct (map dec [0..<n])"
  by (simp add: distinct_map inj_on_def dec_inj)

lemma array_entries_keys: "map fst (array_entries xs) = map dec [0..<length xs]"
  by (simp add: array_entries_def)

lemma distinct_own_entries: "distinct (map fst (own_entries v))"
  by (cases v) (simp_all add: array_entries_keys distinct_dec_keys)

lemma map_of_fold_update:
  "distinct (map fst es) \<Longrightarrow>
   map_of (fold (\<lambda>(k, v). AList.update k v) es t) = map_of t ++ map_of es"
proof (induction es arbitrary: t)
  case Nil
  then show ?case by simp
next
  case (Cons e es)
  obtain k v where e: "e = (k, v)" by (cases e)
  from Cons.prems e have k: "k \<notin> dom (map_of es)" and d: "distinct (map fst es)"
    by (auto simp add: dom_map_of_conv_image_fst)
  have "map_of (fold (\<lambda>(k, v). AList.update k v) (e # es) t) =
        map_of (AList.update k v t) ++ map_of es"
    using Cons.IH [OF d] e by simp
  also have "\<dots> = (map_of t ++ map_of es)(k \<mapsto> v)"
    using k by (simp add: update_conv' map_add_upd_left)
  also have "\<dots> = map_of t ++ map_of (e # es)"
    using e by simp
  finally show ?case .
qed

lemma map_of_spread: "map_of (spread t src) = map_of t ++ map_of (own_entries src)"
  by (simp add: spread_def map_of_fold_update distinct_own_entries)

lemma map_of_array_entries:
  "i < length xs \<Longrightarrow> map_of (array_entries xs) (dec i) = Some (xs ! i)"
proof -
  assume i: "i < length xs"
  have "map_of (zip (map dec [0..<length xs]) xs) (map dec [0..<length xs] ! i) = Some (xs ! i)"
    by (rule map_of_zip_nth) (simp_all add: distinct_dec_keys i)
  with i show ?thesis by (simp add: array_entries_def)
qed

lemma fold_emit: "fold (\<lambda>l. emit (f l)) ls w = w\<lparr>trace := trace w @ map f ls\<rparr>"
  by (induction ls arbitrary: w) (simp_all add: emit_def)

lemma update_trace: "update w = w\<lparr>trace := trace w @ map (\<lambda>l. Called l []) (listeners w)\<rparr>"
  by (simp add: update_def fold_emit)

lemma setState_store_state:
  "typeof p = ''object'' \<Longrightarrow> p \<noteq> JNull \<Longrightarrow>
   store_state (snd (setState p t w)) = spread (spread [] (JObj (store_state w))) p"
  by (simp add: setState_def Let_def update_trace emit_def split: jsval.splits)

lemma map_of_merged:
  "map_of (spread (spread [] (JObj s)) p) = map_of s ++ map_of (own_entries p)"
  by (simp add: map_of_spread map_of_clearjunk)

lemma setState_rejects: "typeof p \<noteq> ''object'' \<or> p = JNull \<Longrightarrow> setState p t w = (Inr False, w)"
  by (auto simp add: setState_def)

lemma setState_True_object:
  "setState p t w = (Inr True, w') \<Longrightarrow> typeof p = ''object'' \<and> p \<noteq> JNull"
  by (auto simp add: setState_def split: if_splits)

section \<open>The store\<close>

text \<open>
  Claim C4 (shallow-merge law). After two successive \<open>setState\<close> calls that both return
  \<open>true\<close>, with partials \<open>p1\<close> then \<open>p2\<close>, the state maps every key of \<open>p2\<close> to the
  value \<open>p2\<close> gives it, every key of \<open>p1\<close> that \<open>p2\<close> lacks to the value \<open>p1\<close> gives it, and
  every other key to the value it had before (the right operand of \<open>++\<close> wins). No call of
  \<open>setState\<close>, whatever its arguments and its outcome, removes a key of the state. On a
  store with an empty state, \<open>setState({a:1})\<close> then \<open>setState({a:2,b:3})\<close> leaves exactly
  \<open>{a:2,b:3}\<close>, whether or not the calls notify.
\<close>

theorem store_shallow_merge_law:
  "(setState p1 t1 w0 = (Inr True, w1) \<and> setState p2 t2 w1 = (Inr True, w2) \<longrightarrow>
      map_of (store_state w2) =
        map_of (store_state w0) ++ map_of (own_entries p1) ++ map_of (own_entries p2))
   \<and> dom (map_of (store_state w)) \<subseteq> dom (map_of (store_state (snd (setState p t w))))
   \<and> (store_state w = [] \<longrightarrow>
        store_state (snd (setState (JObj [(''a'', JNum 2), (''b'', JNum 3)]) tb
          (snd (setState (JObj [(''a'', JNum 1)]) ta w)))) = [(''a'', JNum 2), (''b'', JNum 3)])"
proof (intro conjI impI)
  assume a: "setState p1 t1 w0 = (Inr True, w1) \<and> setState p2 t2 w1 = (Inr True, w2)"
  then have o1: "typeof p1 = ''object'' \<and> p1 \<noteq> JNull" and o2: "typeof p2 = ''object'' \<and> p2 \<noteq> JNull"
    by (blast dest: setState_True_object)+
  from a o1 setState_store_state [of p1 t1 w0]
  have s1: "store_state w1 = spread (spread [] (JObj (store_state w0))) p1" by simp
  from a o2 setState_store_state [of p2 t2 w1]
  have s2: "store_state w2 = spread (spread [] (JObj (store_state w1))) p2" by simp
  show "map_of (store_state w2) =
        map_of (store_state w0) ++ map_of (own_entries p1) ++ map_of (own_entries p2)"
    by (simp add: s1 s2 map_of_merged)
next
  show "dom (map_of (store_state w)) \<subseteq> dom (map_of (store_state (snd (setState p t w))))"
  proof (cases "typeof p \<noteq> ''object'' \<or> p = JNull")
    case True
    then show ?thesis by (simp add: setState_rejects)
  next
    case False
    then show ?thesis by (simp add: setState_store_state map_of_merged)
  qed
next
  assume "store_state w = []"
  then show "store_state (snd (setState (JObj [(''a'', JNum 2), (''b'', JNum 3)]) tb
          (snd (setState (JObj [(''a'', JNum 1)]) ta w)))) = [(''a'', JNum 2), (''b'', JNum 3)]"
    by (simp add: setState_store_state spread_def)
qed

theorem store_shallow_merge_law_witness:
  "setState (JObj [(''a'', JNum 1), (''c'', JNum 7)]) JUndefined initial_world =
     (Inr True, initial_world\<lparr>store_state := [(''a'', JNum 1), (''c'', JNum 7)]\<rparr>)
   \<and> setState (JObj [(''a'', JNum 2), (''b'', JNum 3)]) (JBool False)
        (initial_world\<lparr>store_state := [(''a'', JNum 1), (''c'', JNum 7)]\<rparr>) =
     (Inr True, initial_world\<lparr>store_state := [(''a'', JNum 2), (''c'', JNum 7), (''b'', JNum 3)]\<rparr>)
   \<and> map_of [(''a'', JNum 2), (''c'', JNum 7), (''b'', JNum 3)] =
       map_of [] ++ map_of [(''a'', JNum 1), (''c'', JNum 7)] ++ map_of [(''a'', JNum 2), (''b'', JNum 3)]
   \<and> store_state (snd (setState (JObj [(''a'', JNum 2), (''b'', JNum 3)]) JUndefined
          (snd (setState (JObj [(''a'', JNum 1)]) JUndefined initial_world)))) =
       [(''a'', JNum 2), (''b'', JNum 3)]"
proof -
  let ?w1 = "initial_world\<lparr>store_state := [(''a'', JNum 1), (''c'', JNum 7)]\<rparr>"
  let ?w2 = "initial_world\<lparr>store_state := [(''a'', JNum 2), (''c'', JNum 7), (''b'', JNum 3)]\<rparr>"
  have 1: "setState (JObj [(''a'', JNum 1), (''c'', JNum 7)]) JUndefined initial_world = (Inr True, ?w1)"
    by (simp add: setState_def initial_world_def spread_def update_def)
  have 2: "setState (JObj [(''a'', JNum 2), (''b'', JNum 3)]) (JBool False) ?w1 = (Inr True, ?w2)"
    by (simp add: setState_def initial_world_def spread_def update_def)
  have 3: "store_state initial_world = []" by (simp add: initial_world_def)
  from store_shallow_merge_law [of "JObj [(''a'', JNum 1), (''c'', JNum 7)]" JUndefined
      initial_world ?w1 "JObj [(''a'', JNum 2), (''b'', JNum 3)]" "JBool False" ?w2
      initial_world JNull JUndefined JUndefined JUndefined] 1 2 3
  show ?thesis by simp
qed

text \<open>
  Claim C5 (silent update). For every partial that is an object (of type \<open>object\<close> and not
  \<open>null\<close>), \<open>setState(partial, false)\<close> returns \<open>true\<close> and changes the state field
  alone: the state becomes the old state overridden by the partial's own properties, which
  \<open>getState()\<close> returns at once; no listener and no update callback is called (the trace
  of calls is as before), and the listeners and the update callback are as before.
\<close>

theorem setState_silent_update:
  "typeof p = ''object'' \<and> p \<noteq> JNull \<longrightarrow>
     setState p (JBool False) w =
       (Inr True, w\<lparr>store_state := spread (spread [] (JObj (store_state w))) p\<rparr>)
     \<and> map_of (store_state (snd (setState p (JBool False) w))) =
         map_of (store_state w) ++ map_of (own_entries p)
     \<and> getState (snd (setState p (JBool False) w)) =
         JObj (spread (spread [] (JObj (store_state w))) p)
     \<and> trace (snd (setState p (JBool False) w)) = trace w
     \<and> listeners (snd (setState p (JBool False) w)) = listeners w
     \<and> updateCallback (snd (setState p (JBool False) w)) = updateCallback w"
  by (simp add: setState_def getState_def map_of_merged)

theorem setState_silent_update_witness:
  "setState (JObj [(''count'', JNum 1)]) (JBool False)
      (initial_world\<lparr>store_state := [(''count'', JNum 0)], listeners := [4, 5],
                     updateCallback := JFun 9\<rparr>) =
     (Inr True, initial_world\<lparr>store_state := [(''count'', JNum 1)], listeners := [4, 5],
                     updateCallback := JFun 9\<rparr>)
   \<and> setState (JObj [(''count'', JNum 1)]) (JBool True)
      (initial_world\<lparr>store_state := [(''count'', JNum 0)], listeners := [4, 5],
                     updateCallback := JFun 9\<rparr>) =
     (Inr True, initial_world\<lparr>store_state := [(''count'', JNum 1)], listeners := [4, 5],
                     updateCallback := JFun 9,
                     trace := [Called 4 [], Called 5 [], Called 9 []]\<rparr>)"
  using setState_silent_update [of "JObj [(''count'', JNum 1)]"
      "initial_world\<lparr>store_state := [(''count'', JNum 0)], listeners := [4, 5],
                     updateCallback := JFun 9\<rparr>"]
  by (simp add: setState_def initial_world_def spread_def update_def emit_def)

text \<open>
  Claim C10 (arrays are accepted). For every array \<open>a\<close>, \<open>setState(a)\<close> does not reject
  the call: it never returns \<open>false\<close>, it returns \<open>true\<close> whenever the update callback is
  unset or a function (otherwise the call of the callback is a TypeError, after the merge),
  and in every case the state has been merged with the array's elements under their
  decimal indices \<open>"0"\<close>, \<open>"1"\<close>, ... as keys, every other key keeping its value.
\<close>

theorem setState_accepts_array:
  "store_state (snd (setState (JArr a) t w)) =
     spread (spread [] (JObj (store_state w))) (JArr a)
   \<and> fst (setState (JArr a) t w) \<noteq> Inr False
   \<and> (\<not> truthy (updateCallback w) \<or> (\<exists>f. updateCallback w = JFun f) \<longrightarrow>
        fst (setState (JArr a) t w) = Inr True)
   \<and> (\<forall>i < length a. map_of (store_state (snd (setState (JArr a) t w))) (dec i) = Some (a ! i))
   \<and> (\<forall>k. k \<notin> set (map dec [0..<length a]) \<longrightarrow>
        map_of (store_state (snd (setState (JArr a) t w))) k = map_of (store_state w) k)"
proof (intro conjI allI impI)
  show s: "store_state (snd (setState (JArr a) t w)) =
     spread (spread [] (JObj (store_state w))) (JArr a)"
    by (simp add: setState_store_state)
  show "fst (setState (JArr a) t w) \<noteq> Inr False"
    by (simp add: setState_def Let_def split: jsval.splits)
  show "fst (setState (JArr a) t w) = Inr True"
    if "\<not> truthy (updateCallback w) \<or> (\<exists>f. updateCallback w = JFun f)"
    using that by (auto simp add: setState_def Let_def update_trace split: jsval.splits)
  show "map_of (store_state (snd (setState (JArr a) t w))) (dec i) = Some (a ! i)"
    if "i < length a" for i
    using that by (simp add: s map_of_merged map_of_array_entries)
  show "map_of (store_state (snd (setState (JArr a) t w))) k = map_of (store_state w) k"
    if "k \<notin> set (map dec [0..<length a])" for k
  proof -
    have "fst ` set (array_entries a) = set (map dec [0..<length a])"
      unfolding array_entries_keys [symmetric] by simp
    with that have "k \<notin> dom (map_of (array_entries a))"
      by (simp only: dom_map_of_conv_image_fst not_False_eq_True)
    then show ?thesis
      by (simp add: s map_of_merged map_add_dom_app_simps)
  qed
qed

theorem setState_accepts_array_witness:
  "setState (JArr [JStr ''x'', JNum 5]) JUndefined (initial_world\<lparr>store_state := [(''n'', JNull)]\<rparr>) =
     (Inr True, initial_world\<lparr>store_state := [(''n'', JNull), (''0'', JStr ''x''), (''1'', JNum 5)]\<rparr>)
   \<and> map_of [(''n'', JNull), (''0'', JStr ''x''), (''1'', JNum 5)] (dec 1) = Some (JNum 5)"
  using setState_accepts_array [of "[JStr ''x'', JNum 5]" JUndefined
      "initial_world\<lparr>store_state := [(''n'', JNull)]\<rparr>"]
  by (simp add: setState_def initial_world_def spread_def update_def array_entries_def
      dec.simps digit_char_def upt_rec)

section \<open>The router\<close>

text \<open>
  Claim C6. \<open>addRoute(path, handler)\<close> returns \<open>false\<close> and leaves everything as it was
  when \<open>path\<close> is not a string, \<open>handler\<close> is not a function, or \<open>path\<close> is registered
  already; otherwise it returns \<open>true\<close> and adds the mapping alone. A second registration
  of a path returns \<open>false\<close> and changes nothing, so the table still holds the first
  handler.
\<close>

theorem addRoute_contract:
  "(typeof url \<noteq> ''string'' \<or> typeof handler \<noteq> ''function''
      \<or> (\<exists>u. url = JStr u \<and> allRoutes w u \<noteq> None) \<longrightarrow>
        addRoute url handler w = (False, w))
   \<and> (allRoutes w u = None \<longrightarrow>
        addRoute (JStr u) (JFun h) w = (True, w\<lparr>allRoutes := (allRoutes w)(u \<mapsto> h)\<rparr>))
   \<and> addRoute (JStr u) (JFun h') (snd (addRoute (JStr u) (JFun h) w)) =
        (False, snd (addRoute (JStr u) (JFun h) w))
   \<and> (allRoutes w u = None \<longrightarrow>
        allRoutes (snd (addRoute (JStr u) (JFun h') (snd (addRoute (JStr u) (JFun h) w)))) u
          = Some h)"
  by (cases url; cases handler) (auto simp add: addRoute_def)

theorem addRoute_contract_witness:
  "addRoute (JNum 3) (JFun 1) initial_world = (False, initial_world)
   \<and> addRoute (JStr ''/x'') (JStr ''h'') initial_world = (False, initial_world)
   \<and> addRoute (JStr ''/x'') (JFun 1) initial_world =
        (True, initial_world\<lparr>allRoutes := [''/x'' \<mapsto> 1]\<rparr>)
   \<and> addRoute (JStr ''/x'') (JFun 2) (initial_world\<lparr>allRoutes := [''/x'' \<mapsto> 1]\<rparr>) =
        (False, initial_world\<lparr>allRoutes := [''/x'' \<mapsto> 1]\<rparr>)
   \<and> allRoutes (snd (addRoute (JStr ''/x'') (JFun 2)
         (snd (addRoute (JStr ''/x'') (JFun 1) initial_world)))) ''/x'' = Some 1"
  using addRoute_contract [of "JNum 3" "JFun 1" initial_world "''/x''" 1 2]
    addRoute_contract [of "JStr ''/x''" "JStr ''h''" initial_world "''/x''" 1 2]
    addRoute_contract [of "JStr ''/x''" "JFun 2" "initial_world\<lparr>allRoutes := [''/x'' \<mapsto> 1]\<rparr>" "''/y''" 1 2]
  by (simp add: initial_world_def)

lemma strip_marker: "(if startsWith_hash u then drop 1 u else u) = spec_strip_marker u"
  by (cases u) (simp_all add: startsWith_hash_def spec_strip_marker_def)

lemma add_marker: "(if startsWith_hash r then r else CHR ''#'' # r) = spec_with_marker r"
  by (cases r) (simp_all add: startsWith_hash_def spec_with_marker_def)

lemma resolved_path:
  "(if allRoutes w (spec_strip_marker u) = None then ''/'' else spec_strip_marker u) =
   spec_resolved_path w u"
  by (auto simp add: spec_resolved_path_def dom_def)

lemma executeRoute_string:
  "executeRoute (JStr u) w =
     (Inr (),
      if location_hash w \<noteq> spec_with_marker (spec_resolved_path w u)
      then pushState (spec_with_marker (spec_resolved_path w u))
             (case allRoutes w (spec_resolved_path w u) of
                Some h \<Rightarrow> emit (Called h []) w
              | None \<Rightarrow> emit (Logged [JStr ''No handler found for route:'',
                                       JStr (spec_resolved_path w u)]) w)
      else (case allRoutes w (spec_resolved_path w u) of
                Some h \<Rightarrow> emit (Called h []) w
              | None \<Rightarrow> emit (Logged [JStr ''No handler found for route:'',
                                       JStr (spec_resolved_path w u)]) w))"
proof -
  have l: "location_hash (case r of Some h \<Rightarrow> emit (Called h []) w | None \<Rightarrow> emit (Logged l) w)
             = location_hash w" for r l
    by (simp add: emit_def split: option.splits)
  show ?thesis
    unfolding executeRoute_def jsval.case strip_marker add_marker Let_def resolved_path l
    by simp
qed

lemma dispatched_fields:
  "allRoutes (case r of Some h \<Rightarrow> emit (Called h []) w | None \<Rightarrow> emit (Logged l) w) = allRoutes w"
  "trace (case r of Some h \<Rightarrow> emit (Called h []) w | None \<Rightarrow> emit (Logged l) w) =
     trace w @ (case r of Some h \<Rightarrow> [Called h []] | None \<Rightarrow> [Logged l])"
  "location_hash (case r of Some h \<Rightarrow> emit (Called h []) w | None \<Rightarrow> emit (Logged l) w)
     = location_hash w"
  by (simp_all add: emit_def split: option.splits)

lemma pushState_fields:
  "trace (pushState s w) = trace w @ [Pushed s]"
  "location_hash (pushState s w) = (if s = ''#'' then [] else s)"
  "allRoutes (pushState s w) = allRoutes w"
  by (simp_all add: pushState_def emit_def)

text \<open>
  Claim C7. For every string \<open>url\<close>, \<open>executeRoute\<close> returns normally; it strips one
  leading \<open>#\<close>, falls back to \<open>/\<close> when the stripped path has no handler, calls the handler
  of the resolved path once, with no argument (when there is none, it logs instead), and
  after that pushes one history entry for the resolved path carrying the marker (a \<open>#\<close>
  put in front, unless the path begins with one) exactly when this differs from
  \<open>location.hash\<close>; the route table is as before. With a handler for \<open>/\<close> and none for
  \<open>/does-not-exist\<close>, \<open>executeRoute("/does-not-exist")\<close> calls the handler of \<open>/\<close> and the
  fragment is \<open>#/\<close> afterwards.
\<close>

theorem executeRoute_dispatch:
  "fst (executeRoute (JStr u) w) = Inr ()
   \<and> trace (snd (executeRoute (JStr u) w)) =
       trace w
       @ (case allRoutes w (spec_resolved_path w u) of
            Some h \<Rightarrow> [Called h []]
          | None \<Rightarrow> [Logged [JStr ''No handler found for route:'', JStr (spec_resolved_path w u)]])
       @ (if location_hash w = spec_with_marker (spec_resolved_path w u) then []
          else [Pushed (spec_with_marker (spec_resolved_path w u))])
   \<and> (spec_with_marker (spec_resolved_path w u) \<noteq> ''#'' \<longrightarrow>
        location_hash (snd (executeRoute (JStr u) w)) = spec_with_marker (spec_resolved_path w u))
   \<and> allRoutes (snd (executeRoute (JStr u) w)) = allRoutes w
   \<and> (allRoutes w ''/'' = Some h0 \<and> allRoutes w ''/does-not-exist'' = None \<longrightarrow>
        trace (snd (executeRoute (JStr ''/does-not-exist'') w)) =
          trace w @ [Called h0 []] @ (if location_hash w = ''#/'' then [] else [Pushed ''#/''])
        \<and> location_hash (snd (executeRoute (JStr ''/does-not-exist'') w)) = ''#/'')"
proof (intro conjI impI)
  show "fst (executeRoute (JStr u) w) = Inr ()"
    by (simp add: executeRoute_string)
  show "trace (snd (executeRoute (JStr u) w)) =
       trace w
       @ (case allRoutes w (spec_resolved_path w u) of
            Some h \<Rightarrow> [Called h []]
          | None \<Rightarrow> [Logged [JStr ''No handler found for route:'', JStr (spec_resolved_path w u)]])
       @ (if location_hash w = spec_with_marker (spec_resolved_path w u) then []
          else [Pushed (spec_with_marker (spec_resolved_path w u))])"
    by (simp add: executeRoute_string dispatched_fields pushState_fields)
  show "location_hash (snd (executeRoute (JStr u) w)) = spec_with_marker (spec_resolved_path w u)"
    if "spec_with_marker (spec_resolved_path w u) \<noteq> ''#''"
    using that by (simp add: executeRoute_string dispatched_fields pushState_fields)
  show "allRoutes (snd (executeRoute (JStr u) w)) = allRoutes w"
    by (simp add: executeRoute_string dispatched_fields pushState_fields)
next
  assume a: "allRoutes w ''/'' = Some h0 \<and> allRoutes w ''/does-not-exist'' = None"
  then have r: "spec_resolved_path w ''/does-not-exist'' = ''/''"
    by (simp add: spec_resolved_path_def spec_strip_marker_def dom_def)
  have m: "spec_with_marker ''/'' = ''#/''"
    by (simp add: spec_with_marker_def)
  from a show "trace (snd (executeRoute (JStr ''/does-not-exist'') w)) =
          trace w @ [Called h0 []] @ (if location_hash w = ''#/'' then [] else [Pushed ''#/''])"
    by (simp add: executeRoute_string r m pushState_fields emit_def)
  from a show "location_hash (snd (executeRoute (JStr ''/does-not-exist'') w)) = ''#/''"
    by (simp add: executeRoute_string r m pushState_fields emit_def)
qed

theorem executeRoute_dispatch_witness:
  "executeRoute (JStr ''/does-not-exist'') (initial_world\<lparr>allRoutes := [''/'' \<mapsto> 7]\<rparr>) =
     (Inr (), initial_world\<lparr>allRoutes := [''/'' \<mapsto> 7], location_hash := ''#/'',
                trace := [Called 7 [], Pushed ''#/'']\<rparr>)
   \<and> executeRoute (JStr ''#/active'')
       (initial_world\<lparr>allRoutes := [''/'' \<mapsto> 7, ''/active'' \<mapsto> 8], location_hash := ''#/active''\<rparr>) =
     (Inr (), initial_world\<lparr>allRoutes := [''/'' \<mapsto> 7, ''/active'' \<mapsto> 8],
                location_hash := ''#/active'', trace := [Called 8 []]\<rparr>)
   \<and> spec_with_marker (spec_resolved_path (initial_world\<lparr>allRoutes := [''/'' \<mapsto> 7]\<rparr>)
        ''/does-not-exist'') = ''#/''"
  using executeRoute_dispatch [of "''/does-not-exist''" "initial_world\<lparr>allRoutes := [''/'' \<mapsto> 7]\<rparr>" 7]
  by (simp add: executeRoute_def initial_world_def startsWith_hash_def pushState_def emit_def
      spec_with_marker_def spec_resolved_path_def spec_strip_marker_def Let_def)

text \<open>
  Claim C8, as stated, fails: with no route registered and no fragment in the location,
  \<open>executeRoute("/x")\<close> logs the miss and then pushes the history entry \<open>#/\<close>.
\<close>

theorem executeRoute_no_handler_counterexample:
  "allRoutes initial_world ''/x'' = None \<and> allRoutes initial_world ''/'' = None
   \<and> executeRoute (JStr ''/x'') initial_world =
       (Inr (), initial_world\<lparr>location_hash := ''#/'',
                  trace := [Logged [JStr ''No handler found for route:'', JStr ''/''], Pushed ''#/'']\<rparr>)"
  by (simp add: executeRoute_def initial_world_def startsWith_hash_def pushState_def emit_def Let_def)

text \<open>
  Claim C8, amended. When neither the requested path nor \<open>/\<close> has a handler,
  \<open>executeRoute\<close> returns normally, calls no handler and logs the miss; the history step
  still runs: it pushes one entry \<open>#/\<close> exactly when \<open>location.hash\<close> is not \<open>#/\<close> already,
  and the fragment is \<open>#/\<close> afterwards.
\<close>

theorem executeRoute_no_handler:
  "allRoutes w (spec_strip_marker u) = None \<and> allRoutes w ''/'' = None \<longrightarrow>
     fst (executeRoute (JStr u) w) = Inr ()
     \<and> trace (snd (executeRoute (JStr u) w)) =
         trace w @ [Logged [JStr ''No handler found for route:'', JStr ''/'']]
         @ (if location_hash w = ''#/'' then [] else [Pushed ''#/''])
     \<and> location_hash (snd (executeRoute (JStr u) w)) = ''#/''"
proof
  assume a: "allRoutes w (spec_strip_marker u) = None \<and> allRoutes w ''/'' = None"
  then have r: "spec_resolved_path w u = ''/''"
    by (simp add: spec_resolved_path_def dom_def)
  have m: "spec_with_marker ''/'' = ''#/''"
    by (simp add: spec_with_marker_def)
  from a show "fst (executeRoute (JStr u) w) = Inr ()
     \<and> trace (snd (executeRoute (JStr u) w)) =
         trace w @ [Logged [JStr ''No handler found for route:'', JStr ''/'']]
         @ (if location_hash w = ''#/'' then [] else [Pushed ''#/''])
     \<and> location_hash (snd (executeRoute (JStr u) w)) = ''#/''"
    by (simp add: executeRoute_string r m pushState_fields emit_def)
qed

theorem executeRoute_no_handler_witness:
  "allRoutes initial_world (spec_strip_marker ''#/gone'') = None \<and> allRoutes initial_world ''/'' = None
   \<and> trace (snd (executeRoute (JStr ''#/gone'') initial_world)) =
       [Logged [JStr ''No handler found for route:'', JStr ''/''], Pushed ''#/'']
   \<and> trace (snd (executeRoute (JStr ''#/gone'') (initial_world\<lparr>location_hash := ''#/''\<rparr>))) =
       [Logged [JStr ''No handler found for route:'', JStr ''/'']]"
  using executeRoute_no_handler [of initial_world "''#/gone''"]
    executeRoute_no_handler [of "initial_world\<lparr>location_hash := ''#/''\<rparr>" "''#/gone''"]
  by (simp add: initial_world_def spec_strip_marker_def)

section \<open>The element model\<close>

lemma check_children_accepts:
  "list_all (\<lambda>c. \<not> child_rejected c) cs \<Longrightarrow> check_children cs w = (Inr (), w)"
  by (induction cs) simp_all

lemma check_children_rejects:
  "\<not> list_all (\<lambda>c. \<not> child_rejected c) cs \<Longrightarrow> \<exists>e w'. check_children cs w = (Inl e, w')"
  by (induction cs) (auto simp add: Let_def)

lemma child_accepted_iff:
  "\<not> child_rejected c \<longleftrightarrow>
     typeof c = ''object'' \<and> c \<noteq> JNull \<and> (\<exists>s. get_prop c ''tag'' = JStr s)
     \<and> instanceof_Object (get_prop c ''attributes'') \<and> (\<exists>gs. get_prop c ''children'' = JArr gs)"
proof -
  have 1: "typeof x = ''string'' \<longleftrightarrow> (\<exists>s. x = JStr s)" for x by (cases x) simp_all
  have 2: "truthy x \<and> instanceof_Object x \<longleftrightarrow> instanceof_Object x" for x by (cases x) simp_all
  have 3: "truthy x \<and> isArray x \<longleftrightarrow> (\<exists>gs. x = JArr gs)" for x by (cases x) simp_all
  show ?thesis
    unfolding child_rejected_def de_Morgan_disj not_not 1 2 3 by blast
qed

lemma spec_valid_child_accepted: "spec_valid_tree c \<Longrightarrow> \<not> child_rejected c"
  unfolding child_accepted_iff
  by (subst (asm) spec_valid_tree.simps) (auto split: jsval.splits)

text \<open>
  Claim C3, as stated, fails: the child validation is one level deep. A tree whose
  grandchild has a number for \<open>tag\<close>, no \<open>attributes\<close> and a string for \<open>children\<close> is
  accepted by \<open>createVirtualElement\<close>, unchanged and with no log line.
\<close>

theorem createVirtualElement_validation_depth_counterexample:
  "createVirtualElement (JStr ''div'') (JObj []) (JStr [])
     (JArr [JObj [(''tag'', JStr ''p''), (''attributes'', JObj []),
                  (''children'', JArr [JObj [(''tag'', JNum 5), (''children'', JStr ''x'')]])]])
     initial_world =
   (Inr (JObj [(''tag'', JStr ''div''), (''attributes'', JObj []), (''innerText'', JStr []),
          (''children'',
             JArr [JObj [(''tag'', JStr ''p''), (''attributes'', JObj []),
                  (''children'', JArr [JObj [(''tag'', JNum 5), (''children'', JStr ''x'')]])]])]),
    initial_world)
   \<and> \<not> spec_valid_tree (JObj [(''tag'', JNum 5), (''children'', JStr ''x'')])"
  by (simp add: createVirtualElement_def child_rejected_def spec_valid_tree.simps)

text \<open>
  Claim C3, amended. \<open>createVirtualElement\<close> succeeds, returning the node and logging
  nothing, for every tree that satisfies the structural invariant at every depth. It
  succeeds exactly when the arguments are a non-empty string \<open>tag\<close>, an object for
  \<open>attributes\<close>, a text that is falsy or a string, and an array of \<open>children\<close> each of
  which is a non-null object with a string \<open>tag\<close>, an object (or function) for
  \<open>attributes\<close> and an array for \<open>children\<close>; in every other case it throws. Nothing
  below the direct children is inspected.
\<close>

theorem createVirtualElement_validation_depth:
  "(spec_valid_tree (JObj [(''tag'', tag), (''attributes'', attributes),
                           (''innerText'', innerText), (''children'', children)]) \<longrightarrow>
      createVirtualElement tag attributes innerText children w =
        (Inr (JObj [(''tag'', tag), (''attributes'', attributes),
                    (''innerText'', innerText), (''children'', children)]), w))
   \<and> ((\<exists>v. fst (createVirtualElement tag attributes innerText children w) = Inr v) \<longleftrightarrow>
        (\<exists>s. tag = JStr s \<and> s \<noteq> [])
        \<and> typeof attributes = ''object'' \<and> attributes \<noteq> JNull
        \<and> (truthy innerText \<longrightarrow> (\<exists>s. innerText = JStr s))
        \<and> (\<exists>cs. children = JArr cs
              \<and> (\<forall>c \<in> set cs. typeof c = ''object'' \<and> c \<noteq> JNull
                    \<and> (\<exists>s. get_prop c ''tag'' = JStr s)
                    \<and> instanceof_Object (get_prop c ''attributes'')
                    \<and> (\<exists>gs. get_prop c ''children'' = JArr gs))))"
proof (rule conjI)
  have 1: "typeof x = ''string'' \<longleftrightarrow> (\<exists>s. x = JStr s)" for x by (cases x) simp_all
  have 2: "truthy x \<and> typeof x = ''string'' \<longleftrightarrow> (\<exists>s. x = JStr s \<and> s \<noteq> [])" for x
    by (cases x) auto
  have 3: "truthy x \<and> isArray x \<longleftrightarrow> (\<exists>cs. x = JArr cs)" for x by (cases x) simp_all
  have 4: "typeof x = ''object'' \<and> x \<noteq> JNull \<Longrightarrow> truthy x" for x by (cases x) simp_all
  have root: "(\<exists>v. fst (createVirtualElement tag attributes innerText children w) = Inr v) \<longleftrightarrow>
        (\<exists>s. tag = JStr s \<and> s \<noteq> [])
        \<and> typeof attributes = ''object'' \<and> attributes \<noteq> JNull
        \<and> (truthy innerText \<longrightarrow> (\<exists>s. innerText = JStr s))
        \<and> (\<exists>cs. children = JArr cs \<and> list_all (\<lambda>c. \<not> child_rejected c) cs)"
    (is "?l \<longleftrightarrow> ?r")
  proof
    assume ?l
    then have a: "truthy tag \<and> typeof tag = ''string''"
      and b: "typeof attributes = ''object'' \<and> attributes \<noteq> JNull"
      and c: "truthy innerText \<longrightarrow> typeof innerText = ''string''"
      and d: "truthy children \<and> isArray children"
      and e: "\<exists>w'. check_children (array_elements children) w = (Inr (), w')"
      by (auto simp add: createVirtualElement_def split: if_splits prod.splits sum.splits)
    from d obtain cs where cs: "children = JArr cs" unfolding 3 ..
    with e check_children_rejects [of cs w] have "list_all (\<lambda>c. \<not> child_rejected c) cs"
      by fastforce
    moreover from a have "\<exists>s. tag = JStr s \<and> s \<noteq> []" by (simp only: 2)
    moreover from c have "truthy innerText \<longrightarrow> (\<exists>s. innerText = JStr s)" by (simp only: 1)
    ultimately show ?r using b cs by simp
  next
    assume r: ?r
    then obtain cs where cs: "children = JArr cs" "list_all (\<lambda>c. \<not> child_rejected c) cs"
      by blast
    from r have a: "truthy tag" "typeof tag = ''string''" by auto
    from r 4 [of attributes] have b: "truthy attributes" "typeof attributes = ''object''" "attributes \<noteq> JNull"
      by simp_all
    from r have c: "\<not> (truthy innerText \<and> typeof innerText \<noteq> ''string'')" by auto
    from a b c cs show ?l
      by (simp add: createVirtualElement_def check_children_accepts)
  qed
  show "(\<exists>v. fst (createVirtualElement tag attributes innerText children w) = Inr v) \<longleftrightarrow>
        (\<exists>s. tag = JStr s \<and> s \<noteq> [])
        \<and> typeof attributes = ''object'' \<and> attributes \<noteq> JNull
        \<and> (truthy innerText \<longrightarrow> (\<exists>s. innerText = JStr s))
        \<and> (\<exists>cs. children = JArr cs
              \<and> (\<forall>c \<in> set cs. typeof c = ''object'' \<and> c \<noteq> JNull
                    \<and> (\<exists>s. get_prop c ''tag'' = JStr s)
                    \<and> instanceof_Object (get_prop c ''attributes'')
                    \<and> (\<exists>gs. get_prop c ''children'' = JArr gs)))"
    unfolding root list_all_iff child_accepted_iff ..
  show "spec_valid_tree (JObj [(''tag'', tag), (''attributes'', attributes),
                           (''innerText'', innerText), (''children'', children)]) \<longrightarrow>
      createVirtualElement tag attributes innerText children w =
        (Inr (JObj [(''tag'', tag), (''attributes'', attributes),
                    (''innerText'', innerText), (''children'', children)]), w)"
  proof
    assume "spec_valid_tree (JObj [(''tag'', tag), (''attributes'', attributes),
                           (''innerText'', innerText), (''children'', children)])"
    then have t: "\<exists>s. tag = JStr s \<and> s \<noteq> []" and at: "\<exists>a. attributes = JObj a"
      and tx: "innerText = JUndefined \<or> (\<exists>s. innerText = JStr s)"
      and ch: "\<exists>cs. children = JArr cs \<and> list_all spec_valid_tree cs"
      by (subst (asm) spec_valid_tree.simps; simp split: jsval.splits)+
    from ch obtain cs where cs: "children = JArr cs" "list_all spec_valid_tree cs" by blast
    then have "list_all (\<lambda>c. \<not> child_rejected c) cs"
      by (simp add: list_all_iff spec_valid_child_accepted)
    with t at tx cs show "createVirtualElement tag attributes innerText children w =
        (Inr (JObj [(''tag'', tag), (''attributes'', attributes),
                    (''innerText'', innerText), (''children'', children)]), w)"
      by (auto simp add: createVirtualElement_def check_children_accepts)
  qed
qed

theorem createVirtualElement_validation_depth_witness:
  "spec_valid_tree (JObj [(''tag'', JStr ''ul''), (''attributes'', JObj [(''class'', JStr ''list'')]),
       (''innerText'', JStr []), (''children'', JArr [plain_element ''li'' []])])
   \<and> createVirtualElement (JStr ''ul'') (JObj [(''class'', JStr ''list'')]) (JStr [])
       (JArr [plain_element ''li'' []]) initial_world =
     (Inr (JObj [(''tag'', JStr ''ul''), (''attributes'', JObj [(''class'', JStr ''list'')]),
       (''innerText'', JStr []), (''children'', JArr [plain_element ''li'' []])]), initial_world)
   \<and> fst (createVirtualElement (JStr ''ul'') (JObj []) (JStr []) (JArr [JNum 42]) initial_world) =
       Inl (Error ''Error: each child must be a virtual element with tag, attributes, and children:'')"
  using createVirtualElement_validation_depth [of "JStr ''ul''" "JObj [(''class'', JStr ''list'')]"
      "JStr []" "JArr [plain_element ''li'' []]" initial_world]
    createVirtualElement_validation_depth [of "JStr ''ul''" "JObj []"
      "JStr []" "JArr [JNum 42]" initial_world]
  by (simp add: spec_valid_tree.simps plain_element_def createVirtualElement_def child_rejected_def
      emit_def)

section \<open>The renderer\<close>

lemma outside_update_node [simp]: "outside_document (update_node n f w) = outside_document w"
  by (simp add: outside_document_def update_node_def)

lemma outside_createElement:
  "createElement t w = (r, w') \<Longrightarrow> outside_document w' = outside_document w"
  by (auto simp add: createElement_def outside_document_def split: if_splits)

lemma outside_setAttribute:
  "setAttribute n k v w = (r, w') \<Longrightarrow> outside_document w' = outside_document w"
  by (auto simp add: setAttribute_def split: if_splits)

lemma outside_applyAttribute:
  "applyAttribute n entry w = (r, w') \<Longrightarrow> outside_document w' = outside_document w"
  by (cases entry)
     (auto simp add: applyAttribute_def addEventListener_def removeAttribute_def set_checked_def
        split: if_splits jsval.splits bool.splits dest!: outside_setAttribute)

lemma outside_applyAttributes:
  "applyAttributes n entries w = (r, w') \<Longrightarrow> outside_document w' = outside_document w"
proof (induction entries arbitrary: w)
  case Nil
  then show ?case by simp
next
  case (Cons entry rest)
  obtain r1 w1 where a: "applyAttribute n entry w = (r1, w1)" by (cases "applyAttribute n entry w")
  then have o: "outside_document w1 = outside_document w" by (rule outside_applyAttribute)
  show ?case
  proof (cases r1)
    case (Inl e)
    with Cons.prems a o show ?thesis by simp
  next
    case (Inr u)
    with Cons.prems a have "applyAttributes n rest w1 = (r, w')" by simp
    then have "outside_document w' = outside_document w1" by (rule Cons.IH)
    with o show ?thesis by simp
  qed
qed

lemma outside_tables [simp]:
  "outside_document (w\<lparr>virtualToDomMap := a\<rparr>) = outside_document w"
  "outside_document (w\<lparr>domToVirtualMap := b\<rparr>) = outside_document w"
  by (simp_all add: outside_document_def)

lemma outside_decorate:
  "decorate n elem w = (r, w') \<Longrightarrow> outside_document w' = outside_document w"
  by (auto simp add: decorate_def Let_def set_innerText_def
        split: if_splits dest!: outside_applyAttributes)

lemma outside_appendChild [simp]: "outside_document (appendChild p n w) = outside_document w"
  by (simp add: appendChild_def)

lemma elementToHtmlElement_cases:
  assumes "elementToHtmlElement elem w = (r, w')"
  obtains
    (rejected) e where "typeof elem \<noteq> ''object'' \<or> elem = JNull" "r = Inl e" "w' = w"
  | (create_fails) e where "typeof elem = ''object''" "elem \<noteq> JNull"
      "createElement (get_prop elem ''tag'') w = (Inl e, w')" "r = Inl e"
  | (decorate_fails) n w1 e where "typeof elem = ''object''" "elem \<noteq> JNull"
      "createElement (get_prop elem ''tag'') w = (Inr n, w1)"
      "decorate n elem w1 = (Inl e, w')" "r = Inl e"
  | (no_children) n w1 e where "typeof elem = ''object''" "elem \<noteq> JNull"
      "createElement (get_prop elem ''tag'') w = (Inr n, w1)"
      "decorate n elem w1 = (Inr (), w')" "r = Inl e"
  | (children) n w1 w2 cs rc where "typeof elem = ''object''" "elem \<noteq> JNull"
      "createElement (get_prop elem ''tag'') w = (Inr n, w1)"
      "decorate n elem w1 = (Inr (), w2)" "get_prop elem ''children'' = JArr cs"
      "appendAll n cs w2 = (rc, w')" "r = (case rc of Inl e \<Rightarrow> Inl e | Inr u \<Rightarrow> Inr n)"
proof (cases "typeof elem \<noteq> ''object'' \<or> elem = JNull")
  case True
  with assms rejected show ?thesis
    by (auto simp add: elementToHtmlElement.simps [of elem w])
next
  case False
  then have ok: "typeof elem = ''object''" "elem \<noteq> JNull" by simp_all
  obtain r1 w1 where c: "createElement (get_prop elem ''tag'') w = (r1, w1)"
    by (cases "createElement (get_prop elem ''tag'') w")
  show ?thesis
  proof (cases r1)
    case (Inl e)
    with assms ok c create_fails show ?thesis
      by (auto simp add: elementToHtmlElement.simps [of elem w])
  next
    case r1: (Inr n)
    obtain r2 w2 where d: "decorate n elem w1 = (r2, w2)" by (cases "decorate n elem w1")
    show ?thesis
    proof (cases r2)
      case (Inl e)
      with assms ok c r1 d decorate_fails show ?thesis
        by (auto simp add: elementToHtmlElement.simps [of elem w])
    next
      case r2: (Inr u)
      show ?thesis
      proof (cases "get_prop elem ''children''")
        case (JArr cs)
        obtain rc w3 where a: "appendAll n cs w2 = (rc, w3)" by (cases "appendAll n cs w2")
        with assms ok c r1 d r2 JArr have "w' = w3" "r = (case rc of Inl e \<Rightarrow> Inl e | Inr u \<Rightarrow> Inr n)"
          by (auto simp add: elementToHtmlElement.simps [of elem w] split: sum.splits)
        with ok c r1 d r2 JArr a children show ?thesis by simp
      qed (use assms ok c r1 d r2 no_children in
            \<open>auto simp add: elementToHtmlElement.simps [of elem w]\<close>)
    qed
  qed
qed

lemma outside_materialize:
  "outside_document (snd (elementToHtmlElement elem w)) = outside_document w"
  "outside_document (snd (appendAll parent cs w)) = outside_document w"
proof (induction elem w and parent cs w rule: elementToHtmlElement_appendAll.induct)
  case (1 elem w)
  obtain r w' where e: "elementToHtmlElement elem w = (r, w')"
    by (cases "elementToHtmlElement elem w")
  from e have "outside_document w' = outside_document w"
  proof (cases rule: elementToHtmlElement_cases)
    case (children n w1 w2 cs rc)
    have "\<not> typeof elem \<noteq> ''object''" using children(1) by simp
    from "1.IH" [OF this children(2) children(3) [symmetric] refl children(4) [symmetric] refl children(5)]
      children(6)
    have "outside_document w' = outside_document w2" by simp
    with children(3,4) show ?thesis
      by (simp add: outside_createElement outside_decorate)
  qed (auto dest!: outside_createElement outside_decorate)
  with e show ?case by simp
next
  case (2 parent w)
  show ?case by simp
next
  case (3 parent child rest w)
  obtain r1 w1 where e: "elementToHtmlElement child w = (r1, w1)"
    by (cases "elementToHtmlElement child w")
  with "3.IH"(1) have o1: "outside_document w1 = outside_document w" by simp
  show ?case
  proof (cases r1)
    case (Inl err)
    with e o1 show ?thesis by simp
  next
    case (Inr n)
    from "3.IH"(2) [OF e [symmetric] Inr]
    have "outside_document (snd (appendAll parent rest (appendChild parent n w1))) =
          outside_document (appendChild parent n w1)" .
    with e Inr o1 show ?thesis by simp
  qed
qed

lemma same_but_node_refl [simp]: "same_but_node n w w"
  by (simp add: same_but_node_def)

lemma same_but_node_trans:
  "same_but_node n w w1 \<Longrightarrow> same_but_node n w1 w2 \<Longrightarrow> same_but_node n w w2"
  by (simp add: same_but_node_def)

lemma same_but_node_update [simp]: "same_but_node n w (update_node n f w)"
  by (simp add: same_but_node_def update_node_def)

lemma same_but_node_update_after:
  "same_but_node n w w1 \<Longrightarrow> same_but_node n w (update_node n f w1)"
  by (simp add: same_but_node_def update_node_def)

lemma setAttribute_node: "setAttribute n k v w = (r, w') \<Longrightarrow> same_but_node n w w'"
  by (auto simp add: setAttribute_def split: if_splits)

lemma applyAttribute_node: "applyAttribute n entry w = (r, w') \<Longrightarrow> same_but_node n w w'"
  by (cases entry)
     (auto simp add: applyAttribute_def addEventListener_def removeAttribute_def set_checked_def
        same_but_node_update_after
        split: if_splits jsval.splits bool.splits
        dest!: setAttribute_node elim: same_but_node_trans [rotated])

lemma applyAttributes_node: "applyAttributes n entries w = (r, w') \<Longrightarrow> same_but_node n w w'"
proof (induction entries arbitrary: w)
  case Nil
  then show ?case by auto
next
  case (Cons entry rest)
  obtain r1 w1 where a: "applyAttribute n entry w = (r1, w1)" by (cases "applyAttribute n entry w")
  then have s: "same_but_node n w w1" by (rule applyAttribute_node)
  show ?case
  proof (cases r1)
    case (Inl e)
    with Cons.prems a s show ?thesis by simp
  next
    case (Inr u)
    with Cons.prems a have "applyAttributes n rest w1 = (r, w')" by simp
    then have "same_but_node n w1 w'" by (rule Cons.IH)
    with s show ?thesis by (rule same_but_node_trans)
  qed
qed

lemma decorate_node:
  assumes "decorate n elem w = (r, w')"
  shows "next_node w' = next_node w"
    and "domToVirtualMap w' = (domToVirtualMap w)(n \<mapsto> elem)"
    and "virtualToDomMap w' = (virtualToDomMap w)(get_prop elem ''id'' \<mapsto> n)"
    and "m \<noteq> n \<Longrightarrow> nodes w' m = nodes w m"
proof -
  let ?w1 = "w\<lparr>virtualToDomMap := (virtualToDomMap w)(get_prop elem ''id'' \<mapsto> n),
               domToVirtualMap := (domToVirtualMap w)(n \<mapsto> elem)\<rparr>"
  let ?w2 = "if truthy (get_prop elem ''innerText'')
             then set_innerText n (js_toString (get_prop elem ''innerText'')) ?w1 else ?w1"
  have 1: "same_but_node n ?w1 ?w2"
    by (simp add: set_innerText_def)
  have 2: "same_but_node n ?w2 w'"
    using assms by (auto simp add: decorate_def Let_def split: if_splits dest: applyAttributes_node)
  from 1 2 have "same_but_node n ?w1 w'" by (rule same_but_node_trans)
  then show "next_node w' = next_node w"
    and "domToVirtualMap w' = (domToVirtualMap w)(n \<mapsto> elem)"
    and "virtualToDomMap w' = (virtualToDomMap w)(get_prop elem ''id'' \<mapsto> n)"
    and "m \<noteq> n \<Longrightarrow> nodes w' m = nodes w m"
    by (simp_all add: same_but_node_def)
qed

lemma createElement_node:
  assumes "createElement t w = (Inr n, w')"
  shows "n = next_node w" and "next_node w' = Suc (next_node w)"
    and "domToVirtualMap w' = domToVirtualMap w" and "virtualToDomMap w' = virtualToDomMap w"
    and "m \<noteq> n \<Longrightarrow> nodes w' m = nodes w m"
  using assms by (auto simp add: createElement_def split: if_splits)

lemma createElement_fails: "createElement t w = (Inl e, w') \<Longrightarrow> w' = w"
  by (auto simp add: createElement_def split: if_splits)

lemma appendChild_fields [simp]:
  "next_node (appendChild p c w) = next_node w"
  "domToVirtualMap (appendChild p c w) = domToVirtualMap w"
  "virtualToDomMap (appendChild p c w) = virtualToDomMap w"
  "nodes (appendChild p c w) m =
     (if m = p then (nodes w p)\<lparr>childNodes := childNodes (nodes w p) @ [c]\<rparr> else nodes w m)"
  by (simp_all add: appendChild_def update_node_def)

lemma materialize_document:
  "elementToHtmlElement elem w = (r, w') \<Longrightarrow>
     keeps_old w w' \<and> (\<forall>m < next_node w. nodes w' m = nodes w m)
     \<and> (\<forall>n. r = Inr n \<longrightarrow> n = next_node w \<and> n < next_node w' \<and> domToVirtualMap w' n = Some elem)"
  "parent < next_node w \<Longrightarrow> appendAll parent cs w = (r', w') \<Longrightarrow>
     keeps_old w w' \<and> (\<forall>m < next_node w. m \<noteq> parent \<longrightarrow> nodes w' m = nodes w m)
     \<and> appended parent cs w r' w'"
proof (induction elem w and parent cs w arbitrary: r w' and r' w'
        rule: elementToHtmlElement_appendAll.induct)
  case (1 elem w)
  from "1.prems" show ?case
  proof (cases rule: elementToHtmlElement_cases)
    case (rejected e)
    then show ?thesis by (simp add: keeps_old_def)
  next
    case (create_fails e)
    then show ?thesis by (auto simp add: keeps_old_def dest: createElement_fails)
  next
    case (decorate_fails n w1 e)
    from createElement_node [OF decorate_fails(3)] decorate_node [OF decorate_fails(4)]
      decorate_fails(5)
    show ?thesis by (simp add: keeps_old_def)
  next
    case (no_children n w1 e)
    from createElement_node [OF no_children(3)] decorate_node [OF no_children(4)]
      no_children(5)
    show ?thesis by (simp add: keeps_old_def)
  next
    case (children n w1 w2 cs rc)
    note c = createElement_node [OF children(3)]
    note d = decorate_node [OF children(4)]
    have "\<not> typeof elem \<noteq> ''object''" using children(1) by simp
    note ih = "1.IH" [OF this children(2) children(3) [symmetric] refl children(4) [symmetric]
        refl children(5) _ children(6)]
    from c d have "n < next_node w2" by simp
    from ih [OF this]
    have k: "keeps_old w2 w'" and o: "\<forall>m < next_node w2. m \<noteq> n \<longrightarrow> nodes w' m = nodes w2 m"
      by simp_all
    from k c d have 1: "keeps_old w w'"
      by (simp add: keeps_old_def)
    from o c d have 2: "\<forall>m < next_node w. nodes w' m = nodes w m"
      by simp
    from k c d have 3: "n = next_node w \<and> n < next_node w' \<and> domToVirtualMap w' n = Some elem"
      by (simp add: keeps_old_def)
    from 1 2 3 children(7) show ?thesis by (simp split: sum.splits)
  qed
next
  case (2 parent w)
  then show ?case by (simp add: keeps_old_def appended_def)
next
  case (3 parent child rest w)
  obtain r1 w1 where e: "elementToHtmlElement child w = (r1, w1)"
    by (cases "elementToHtmlElement child w")
  from "3.IH"(1) [OF e]
  have k1: "keeps_old w w1" and o1: "\<forall>m < next_node w. nodes w1 m = nodes w m"
    and n1: "\<forall>n. r1 = Inr n \<longrightarrow> n = next_node w \<and> n < next_node w1 \<and> domToVirtualMap w1 n = Some child"
    by simp_all
  show ?case
  proof (cases r1)
    case (Inl err)
    with e "3.prems" have "w' = w1" "r' = Inl err" by simp_all
    moreover have "appended parent (child # rest) w (Inl err) w1"
      unfolding appended_def using o1 "3.prems"(1) by (intro exI [of _ "[]"]) simp
    ultimately show ?thesis
      using k1 o1 by simp
  next
    case (Inr n)
    with n1 have n: "n = next_node w" "n < next_node w1" "domToVirtualMap w1 n = Some child"
      by blast+
    let ?w2 = "appendChild parent n w1"
    from e Inr "3.prems" have a: "appendAll parent rest ?w2 = (r', w')" by simp
    from "3.prems"(1) k1 have p: "parent < next_node ?w2"
      by (simp add: keeps_old_def)
    from "3.IH"(2) [OF e [symmetric] Inr p a]
    have k2: "keeps_old ?w2 w'"
      and o2: "\<forall>m < next_node ?w2. m \<noteq> parent \<longrightarrow> nodes w' m = nodes ?w2 m"
      and ap: "appended parent rest ?w2 r' w'"
      by simp_all
    from k1 k2 have 1: "keeps_old w w'"
      by (simp add: keeps_old_def)
    from o1 o2 k1 have 2: "\<forall>m < next_node w. m \<noteq> parent \<longrightarrow> nodes w' m = nodes w m"
      by (simp add: keeps_old_def)
    from ap obtain ns where
      ns1: "nodes w' parent = (nodes ?w2 parent)\<lparr>childNodes := childNodes (nodes ?w2 parent) @ ns\<rparr>"
      and ns2: "\<forall>m \<in> set ns. next_node ?w2 \<le> m \<and> m < next_node w'"
      and ns3: "\<forall>i < length ns. domToVirtualMap w' (ns ! i) = Some (rest ! i)"
      and ns4: "length ns \<le> length rest"
      and ns5: "(\<exists>u. r' = Inr u) \<longleftrightarrow> length ns = length rest"
      and ns6: "distinct ns"
      unfolding appended_def by blast
    have p2: "nodes ?w2 parent = (nodes w parent)\<lparr>childNodes := childNodes (nodes w parent) @ [n]\<rparr>"
      using o1 "3.prems"(1) by simp
    have a1: "nodes w' parent = (nodes w parent)\<lparr>childNodes := childNodes (nodes w parent) @ (n # ns)\<rparr>"
      using o1 "3.prems"(1) by (simp add: ns1)
    have a2: "\<forall>m \<in> set (n # ns). next_node w \<le> m \<and> m < next_node w'"
      using ns2 n k1 k2 by (auto simp add: keeps_old_def)
    have dn: "domToVirtualMap w' n = Some child"
      using k2 n by (simp add: keeps_old_def)
    have a3: "\<forall>i < length (n # ns). domToVirtualMap w' ((n # ns) ! i) = Some ((child # rest) ! i)"
      using ns3 dn by (auto simp add: nth_Cons split: nat.splits)
    have a4: "distinct (n # ns)"
      using ns2 ns6 n by auto
    have "appended parent (child # rest) w r' w'"
      unfolding appended_def
      using a1 a2 a3 a4 ns4 ns5 by (intro exI [of _ "n # ns"]) simp
    with 1 2 show ?thesis by simp
  qed
qed

lemma appendAll_throw_point:
  "appendAll parent cs w = (Inl e, w') \<Longrightarrow>
   \<exists>k wk. k < length cs \<and> appendAll parent (take k cs) w = (Inr (), wk)
      \<and> elementToHtmlElement (cs ! k) wk = (Inl e, w')"
proof (induction cs arbitrary: w)
  case Nil
  then show ?case by simp
next
  case (Cons child rest)
  obtain r1 w1 where m: "elementToHtmlElement child w = (r1, w1)"
    by (cases "elementToHtmlElement child w")
  show ?case
  proof (cases r1)
    case (Inl err)
    with m Cons.prems have "elementToHtmlElement child w = (Inl e, w')" by simp
    then have "0 < length (child # rest) \<and> appendAll parent (take 0 (child # rest)) w = (Inr (), w)
        \<and> elementToHtmlElement ((child # rest) ! 0) w = (Inl e, w')"
      by simp
    then show ?thesis by blast
  next
    case (Inr n)
    with m Cons.prems have "appendAll parent rest (appendChild parent n w1) = (Inl e, w')"
      by simp
    from Cons.IH [OF this] obtain k wk where
      k: "k < length rest" "appendAll parent (take k rest) (appendChild parent n w1) = (Inr (), wk)"
        "elementToHtmlElement (rest ! k) wk = (Inl e, w')"
      by blast
    with m Inr have "Suc k < length (child # rest)
        \<and> appendAll parent (take (Suc k) (child # rest)) w = (Inr (), wk)
        \<and> elementToHtmlElement ((child # rest) ! Suc k) wk = (Inl e, w')"
      by simp
    then show ?thesis by blast
  qed
qed

lemma updateDom_rejects:
  "\<not> isArray es \<or> list_ex (\<lambda>e. typeof e \<noteq> ''object'') (array_elements es) \<Longrightarrow>
   \<exists>e. updateDom t es w = (Inl (Error e), w)"
  by (auto simp add: updateDom_def)

lemma isArray_truthy: "isArray es \<Longrightarrow> truthy es"
  by (cases es) simp_all

lemma updateDom_accepts:
  assumes "isArray es" and "list_all (\<lambda>e. typeof e = ''object'') (array_elements es)"
  shows "updateDom t es w =
     appendAll t (array_elements es)
       (clear_innerHTML t
          (w\<lparr>virtualToDomMap := Map.empty,
             store_state := spread (spread [] (JObj (store_state w)))
                              (JObj [(''vDOM'', es), (''topElement'', JNode t)])\<rparr>))"
proof -
  from assms(2) have "\<not> list_ex (\<lambda>e. typeof e \<noteq> ''object'') (array_elements es)"
    by (simp add: list_all_iff list_ex_iff)
  with assms(1) show ?thesis
    by (simp add: updateDom_def isArray_truthy setState_def)
qed

lemma outside_updateDom: "outside_document (snd (updateDom t es w)) =
  (if isArray es \<and> list_all (\<lambda>e. typeof e = ''object'') (array_elements es)
   then (spread (spread [] (JObj (store_state w))) (JObj [(''vDOM'', es), (''topElement'', JNode t)]),
         listeners w, updateCallback w, allRoutes w, location_hash w, trace w)
   else outside_document w)"
proof (cases "isArray es \<and> list_all (\<lambda>e. typeof e = ''object'') (array_elements es)")
  case True
  then show ?thesis
    by (simp add: updateDom_accepts outside_materialize clear_innerHTML_def)
       (simp add: outside_document_def)
next
  case False
  then have "\<not> isArray es \<or> list_ex (\<lambda>e. typeof e \<noteq> ''object'') (array_elements es)"
    by (auto simp add: list_all_iff list_ex_iff)
  from updateDom_rejects [OF this, of t w] False show ?thesis by auto
qed

lemma valid_names: "valid_name ''div''" "valid_name ''span''" "valid_name ''p''"
  by (simp_all add: valid_name_def name_start_char_def name_char_def)

lemma lower_names: "to_lower ''div'' = ''div''" "to_lower ''span'' = ''span''" "to_lower ''p'' = ''p''"
  by (simp_all add: to_lower_def to_lower_char_def)

lemmas render_eval =
  updateDom_def setState_def initial_world_def plain_element_def
  elementToHtmlElement.simps createElement_def decorate_def clear_innerHTML_def update_node_def
  appendChild_def valid_names lower_names Let_def spread_def blank_node_def

text \<open>
  Claim C2. For every call of \<open>updateDom\<close>, whatever its outcome, no listener and no
  update callback is called: the trace of calls is as before, and so are the listeners and
  the update callback. When the arguments pass the two checks, the store has been written:
  the state is the old one with \<open>vDOM\<close> and \<open>topElement\<close> replaced. A render pass does
  not enter the store's notification, so it cannot start another render through it.
\<close>

theorem updateDom_store_write_is_silent:
  "trace (snd (updateDom t es w)) = trace w
   \<and> listeners (snd (updateDom t es w)) = listeners w
   \<and> updateCallback (snd (updateDom t es w)) = updateCallback w
   \<and> (isArray es \<and> list_all (\<lambda>e. typeof e = ''object'') (array_elements es) \<longrightarrow>
        map_of (store_state (snd (updateDom t es w))) =
          (map_of (store_state w))(''vDOM'' \<mapsto> es, ''topElement'' \<mapsto> JNode t))"
proof -
  have o: "outside_document (snd (updateDom t es w)) =
  (if isArray es \<and> list_all (\<lambda>e. typeof e = ''object'') (array_elements es)
   then (spread (spread [] (JObj (store_state w))) (JObj [(''vDOM'', es), (''topElement'', JNode t)]),
         listeners w, updateCallback w, allRoutes w, location_hash w, trace w)
   else outside_document w)" by (rule outside_updateDom)
  have m: "map_of (spread (spread [] (JObj (store_state w)))
              (JObj [(''vDOM'', es), (''topElement'', JNode t)])) =
           (map_of (store_state w))(''vDOM'' \<mapsto> es, ''topElement'' \<mapsto> JNode t)"
    by (simp add: map_of_merged map_add_def fun_eq_iff)
  from o m show ?thesis
    by (auto simp add: outside_document_def split: if_splits)
qed

theorem updateDom_store_write_is_silent_witness:
  "trace (snd (updateDom 0 (JArr [plain_element ''p'' []])
            (initial_world\<lparr>listeners := [4, 5], updateCallback := JFun 9\<rparr>))) = []
   \<and> store_state (snd (updateDom 0 (JArr [plain_element ''p'' []])
            (initial_world\<lparr>listeners := [4, 5], updateCallback := JFun 9\<rparr>))) =
       [(''vDOM'', JArr [plain_element ''p'' []]), (''topElement'', JNode 0)]
   \<and> trace (snd (setState (JObj [(''vDOM'', JArr [plain_element ''p'' []]), (''topElement'', JNode 0)])
            JUndefined (initial_world\<lparr>listeners := [4, 5], updateCallback := JFun 9\<rparr>))) =
       [Called 4 [], Called 5 [], Called 9 []]"
  using updateDom_store_write_is_silent [of 0 "JArr [plain_element ''p'' []]"
      "initial_world\<lparr>listeners := [4, 5], updateCallback := JFun 9\<rparr>"]
  by (simp add: render_eval update_def emit_def)

text \<open>
  Claim C1, as stated, fails: after a successful render of one \<open>div\<close> into
  \<open>document.body\<close> (its child is node 1), a render of a valid \<open>p\<close> followed by an element
  with no \<open>attributes\<close> throws, and the body is left with the new \<open>p\<close> (node 2) alone:
  neither the last successful render nor the new one.
\<close>

theorem updateDom_not_atomic_counterexample:
  "fst (updateDom 0 (JArr [plain_element ''div'' []]) initial_world) = Inr ()
   \<and> childNodes (nodes (snd (updateDom 0 (JArr [plain_element ''div'' []]) initial_world)) 0) = [1]
   \<and> fst (updateDom 0 (JArr [plain_element ''p'' [], JObj [(''tag'', JStr ''span'')]])
           (snd (updateDom 0 (JArr [plain_element ''div'' []]) initial_world))) =
       Inl (Error ''Error: elem.attributes is not a plain object'')
   \<and> childNodes (nodes (snd (updateDom 0 (JArr [plain_element ''p'' [], JObj [(''tag'', JStr ''span'')]])
           (snd (updateDom 0 (JArr [plain_element ''div'' []]) initial_world)))) 0) = [2]"
  by (simp add: render_eval)

text \<open>
  Claim C1, amended. A throw of \<open>updateDom\<close>'s own checks (\<open>attachElements\<close> is not an
  array, or one of its elements is not of type \<open>object\<close>) leaves the whole world as it
  was. Past the checks, for a container that exists, the forward table is cleared, the
  store is written and the container is emptied, and then:

  \<^item> when \<open>updateDom\<close> returns, the children of the container are new nodes, distinct, one
    for each element and in their order, each registered for its element in the reverse
    table;

  \<^item> when \<open>updateDom\<close> throws \<open>e\<close>, there is an index \<open>k\<close> such that the \<open>k\<close> elements
    before it were materialized and appended without a throw, the materialization of the
    element at \<open>k\<close> is what throws \<open>e\<close>, and the children of the container are the \<open>k\<close>
    nodes of the elements before \<open>k\<close>: new, distinct, created before the failing
    materialization began, each registered for its element. Nothing of the previous
    content and nothing of the failing element is among them.
\<close>

theorem updateDom_failure_points:
  "(\<not> isArray es \<or> list_ex (\<lambda>e. typeof e \<noteq> ''object'') (array_elements es) \<longrightarrow>
      snd (updateDom t es w) = w \<and> (\<exists>e. fst (updateDom t es w) = Inl (Error e)))
   \<and> (t < next_node w \<and> isArray es \<and> list_all (\<lambda>e. typeof e = ''object'') (array_elements es) \<longrightarrow>
      (\<forall>u. fst (updateDom t es w) = Inr u \<longrightarrow>
         (\<exists>ns. length ns = length (array_elements es) \<and> distinct ns
            \<and> nodes (snd (updateDom t es w)) t = (nodes w t)\<lparr>textContent := [], childNodes := ns\<rparr>
            \<and> (\<forall>n \<in> set ns. next_node w \<le> n)
            \<and> (\<forall>i < length ns.
                  domToVirtualMap (snd (updateDom t es w)) (ns ! i) = Some (array_elements es ! i))))
      \<and> (\<forall>e. fst (updateDom t es w) = Inl e \<longrightarrow>
         (\<exists>k wk ns. k < length (array_elements es)
            \<and> appendAll t (take k (array_elements es))
                 (clear_innerHTML t
                    (snd (setState (JObj [(''vDOM'', es), (''topElement'', JNode t)]) (JBool False)
                            (w\<lparr>virtualToDomMap := Map.empty\<rparr>)))) = (Inr (), wk)
            \<and> elementToHtmlElement (array_elements es ! k) wk = (Inl e, snd (updateDom t es w))
            \<and> length ns = k \<and> distinct ns
            \<and> nodes (snd (updateDom t es w)) t = (nodes w t)\<lparr>textContent := [], childNodes := ns\<rparr>
            \<and> (\<forall>n \<in> set ns. next_node w \<le> n \<and> n < next_node wk)
            \<and> (\<forall>i < k.
                  domToVirtualMap (snd (updateDom t es w)) (ns ! i) = Some (array_elements es ! i)))))"
proof (rule conjI; rule impI)
  assume "\<not> isArray es \<or> list_ex (\<lambda>e. typeof e \<noteq> ''object'') (array_elements es)"
  from updateDom_rejects [OF this, of t w]
  show "snd (updateDom t es w) = w \<and> (\<exists>e. fst (updateDom t es w) = Inl (Error e))"
    by auto
next
  assume a: "t < next_node w \<and> isArray es
    \<and> list_all (\<lambda>e. typeof e = ''object'') (array_elements es)"
  let ?cs = "array_elements es"
  let ?w0 = "clear_innerHTML t
          (snd (setState (JObj [(''vDOM'', es), (''topElement'', JNode t)]) (JBool False)
                  (w\<lparr>virtualToDomMap := Map.empty\<rparr>)))"
  obtain r w' where u: "updateDom t es w = (r, w')" by (cases "updateDom t es w")
  have s0: "snd (setState (JObj [(''vDOM'', es), (''topElement'', JNode t)]) (JBool False)
                  (w\<lparr>virtualToDomMap := Map.empty\<rparr>)) =
          w\<lparr>virtualToDomMap := Map.empty,
            store_state := spread (spread [] (JObj (store_state w)))
                              (JObj [(''vDOM'', es), (''topElement'', JNode t)])\<rparr>"
    by (simp add: setState_def)
  from u a have ap: "appendAll t ?cs ?w0 = (r, w')"
    by (simp add: s0 updateDom_accepts)
  have n0: "next_node ?w0 = next_node w"
    and t0: "nodes ?w0 t = (nodes w t)\<lparr>textContent := [], childNodes := []\<rparr>"
    by (simp_all add: s0 clear_innerHTML_def update_node_def)
  from a have t1: "t < next_node ?w0" by (simp only: n0)
  have success: "\<exists>ns. length ns = length ?cs \<and> distinct ns
            \<and> nodes w' t = (nodes w t)\<lparr>textContent := [], childNodes := ns\<rparr>
            \<and> (\<forall>n \<in> set ns. next_node w \<le> n)
            \<and> (\<forall>i < length ns. domToVirtualMap w' (ns ! i) = Some (?cs ! i))"
    if r: "r = Inr v" for v
  proof -
    from materialize_document(2) [OF t1 ap] have "appended t ?cs ?w0 r w'" by simp
    then obtain ns where
      ns1: "nodes w' t = (nodes ?w0 t)\<lparr>childNodes := childNodes (nodes ?w0 t) @ ns\<rparr>"
      and ns2: "\<forall>n \<in> set ns. next_node ?w0 \<le> n \<and> n < next_node w'"
      and ns3: "\<forall>i < length ns. domToVirtualMap w' (ns ! i) = Some (?cs ! i)"
      and ns4: "distinct ns"
      and ns5: "(\<exists>u. r = Inr u) \<longleftrightarrow> length ns = length ?cs"
      unfolding appended_def by blast
    from ns1 have "nodes w' t = (nodes w t)\<lparr>textContent := [], childNodes := ns\<rparr>"
      by (simp only: t0) simp
    moreover from ns2 have "\<forall>n \<in> set ns. next_node w \<le> n" by (simp only: n0) simp
    moreover from ns5 r have "length ns = length ?cs" by simp
    ultimately show ?thesis using ns3 ns4 by blast
  qed
  have failure: "\<exists>k wk ns. k < length ?cs
            \<and> appendAll t (take k ?cs) ?w0 = (Inr (), wk)
            \<and> elementToHtmlElement (?cs ! k) wk = (Inl e, w')
            \<and> length ns = k \<and> distinct ns
            \<and> nodes w' t = (nodes w t)\<lparr>textContent := [], childNodes := ns\<rparr>
            \<and> (\<forall>n \<in> set ns. next_node w \<le> n \<and> n < next_node wk)
            \<and> (\<forall>i < k. domToVirtualMap w' (ns ! i) = Some (?cs ! i))"
    if r: "r = Inl e" for e
  proof -
    from ap r have "appendAll t ?cs ?w0 = (Inl e, w')" by simp
    from appendAll_throw_point [OF this] obtain k wk where
      k: "k < length ?cs" and pre: "appendAll t (take k ?cs) ?w0 = (Inr (), wk)"
      and thr: "elementToHtmlElement (?cs ! k) wk = (Inl e, w')"
      by blast
    from materialize_document(2) [OF t1 pre]
    have ko: "keeps_old ?w0 wk" and "appended t (take k ?cs) ?w0 (Inr ()) wk" by simp_all
    then obtain ns where
      ns1: "nodes wk t = (nodes ?w0 t)\<lparr>childNodes := childNodes (nodes ?w0 t) @ ns\<rparr>"
      and ns2: "\<forall>n \<in> set ns. next_node ?w0 \<le> n \<and> n < next_node wk"
      and ns3: "\<forall>i < length ns. domToVirtualMap wk (ns ! i) = Some (take k ?cs ! i)"
      and ns4: "distinct ns"
      and ns5: "length ns = length (take k ?cs)"
      unfolding appended_def by blast
    from ns5 k have len: "length ns = k" by simp
    from materialize_document(1) [OF thr]
    have kw: "keeps_old wk w'" and old: "\<forall>m < next_node wk. nodes w' m = nodes wk m" by simp_all
    from ko t1 have "t < next_node wk" by (simp add: keeps_old_def)
    with old have "nodes w' t = nodes wk t" by simp
    with ns1 have c: "nodes w' t = (nodes w t)\<lparr>textContent := [], childNodes := ns\<rparr>"
      by (simp only: t0) simp
    from ns2 have b: "\<forall>n \<in> set ns. next_node w \<le> n \<and> n < next_node wk"
      by (simp only: n0)
    have d: "\<forall>i < k. domToVirtualMap w' (ns ! i) = Some (?cs ! i)"
    proof (intro allI impI)
      fix i assume i: "i < k"
      with len have "ns ! i \<in> set ns" by simp
      with ns2 have "ns ! i < next_node wk" by blast
      with kw have "domToVirtualMap w' (ns ! i) = domToVirtualMap wk (ns ! i)"
        by (simp add: keeps_old_def)
      with ns3 i len show "domToVirtualMap w' (ns ! i) = Some (?cs ! i)" by simp
    qed
    from k pre thr len ns4 c b d show ?thesis by blast
  qed
  from success failure u
  show "(\<forall>u. fst (updateDom t es w) = Inr u \<longrightarrow>
         (\<exists>ns. length ns = length (array_elements es) \<and> distinct ns
            \<and> nodes (snd (updateDom t es w)) t = (nodes w t)\<lparr>textContent := [], childNodes := ns\<rparr>
            \<and> (\<forall>n \<in> set ns. next_node w \<le> n)
            \<and> (\<forall>i < length ns.
                  domToVirtualMap (snd (updateDom t es w)) (ns ! i) = Some (array_elements es ! i))))
      \<and> (\<forall>e. fst (updateDom t es w) = Inl e \<longrightarrow>
         (\<exists>k wk ns. k < length (array_elements es)
            \<and> appendAll t (take k (array_elements es))
                 (clear_innerHTML t
                    (snd (setState (JObj [(''vDOM'', es), (''topElement'', JNode t)]) (JBool False)
                            (w\<lparr>virtualToDomMap := Map.empty\<rparr>)))) = (Inr (), wk)
            \<and> elementToHtmlElement (array_elements es ! k) wk = (Inl e, snd (updateDom t es w))
            \<and> length ns = k \<and> distinct ns
            \<and> nodes (snd (updateDom t es w)) t = (nodes w t)\<lparr>textContent := [], childNodes := ns\<rparr>
            \<and> (\<forall>n \<in> set ns. next_node w \<le> n \<and> n < next_node wk)
            \<and> (\<forall>i < k.
                  domToVirtualMap (snd (updateDom t es w)) (ns ! i) = Some (array_elements es ! i))))"
    by simp
qed

theorem updateDom_failure_points_witness:
  "updateDom 0 (JArr [plain_element ''p'' [], JStr ''text'']) initial_world =
     (Inl (Error ''Error: element is not an object''), initial_world)
   \<and> (0::nat) < next_node initial_world
   \<and> fst (updateDom 0 (JArr [plain_element ''p'' [], plain_element ''span'' []]) initial_world) = Inr ()
   \<and> childNodes (nodes (snd (updateDom 0 (JArr [plain_element ''p'' [], plain_element ''span'' []])
        initial_world)) 0) = [1, 2]
   \<and> domToVirtualMap (snd (updateDom 0 (JArr [plain_element ''p'' [], plain_element ''span'' []])
        initial_world)) 2 = Some (plain_element ''span'' [])
   \<and> fst (updateDom 0 (JArr [plain_element ''p'' [], JObj [(''tag'', JStr ''span'')],
                               plain_element ''div'' []]) initial_world) =
       Inl (Error ''Error: elem.attributes is not a plain object'')
   \<and> childNodes (nodes (snd (updateDom 0 (JArr [plain_element ''p'' [], JObj [(''tag'', JStr ''span'')],
                               plain_element ''div'' []]) initial_world)) 0) = [1]
   \<and> domToVirtualMap (snd (updateDom 0 (JArr [plain_element ''p'' [], JObj [(''tag'', JStr ''span'')],
                               plain_element ''div'' []]) initial_world)) 1 =
       Some (plain_element ''p'' [])
   \<and> next_node (snd (updateDom 0 (JArr [plain_element ''p'' [], JObj [(''tag'', JStr ''span'')],
                               plain_element ''div'' []]) initial_world)) = 3"
  using updateDom_failure_points [of "JArr [plain_element ''p'' [], JStr ''text'']" 0 initial_world]
    updateDom_failure_points [of "JArr [plain_element ''p'' [], plain_element ''span'' []]" 0 initial_world]
    updateDom_failure_points [of "JArr [plain_element ''p'' [], JObj [(''tag'', JStr ''span'')],
                               plain_element ''div'' []]" 0 initial_world]
  by (simp add: render_eval)

text \<open>
  Claim C9, at the input where the code departs from it: a \<open>div\<close> with one \<open>span\<close>
  child, both built by \<open>createVirtualElement\<close>, rendered into \<open>document.body\<close>. The render
  returns, the reverse table maps node 1 to the \<open>div\<close> and node 2 to the \<open>span\<close>, and the
  forward table has the single key \<open>undefined\<close> (the \<open>id\<close> of an element that has none),
  mapped to the node of the \<open>span\<close>.
\<close>

theorem forward_table_keyed_by_missing_id:
  "fst (createVirtualElement (JStr ''span'') (JObj []) (JStr []) (JArr []) initial_world) =
     Inr (plain_element ''span'' [])
   \<and> fst (createVirtualElement (JStr ''div'') (JObj []) (JStr []) (JArr [plain_element ''span'' []])
          initial_world) = Inr (plain_element ''div'' [plain_element ''span'' []])
   \<and> fst (updateDom 0 (JArr [plain_element ''div'' [plain_element ''span'' []]]) initial_world) = Inr ()
   \<and> childNodes (nodes (snd (updateDom 0 (JArr [plain_element ''div'' [plain_element ''span'' []]])
        initial_world)) 0) = [1]
   \<and> domToVirtualMap (snd (updateDom 0 (JArr [plain_element ''div'' [plain_element ''span'' []]])
        initial_world)) 1 = Some (plain_element ''div'' [plain_element ''span'' []])
   \<and> domToVirtualMap (snd (updateDom 0 (JArr [plain_element ''div'' [plain_element ''span'' []]])
        initial_world)) 2 = Some (plain_element ''span'' [])
   \<and> virtualToDomMap (snd (updateDom 0 (JArr [plain_element ''div'' [plain_element ''span'' []]])
        initial_world)) = [JUndefined \<mapsto> 2]"
  by (simp add: render_eval createVirtualElement_def child_rejected_def numeral_2_eq_2)

theorem forward_table_keyed_by_missing_id_witness:
  "virtualToDomMap (snd (updateDom 0 (JArr [plain_element ''div'' [plain_element ''span'' []]])
        initial_world)) (get_prop (plain_element ''div'' [plain_element ''span'' []]) ''id'')
     = Some 2
   \<and> domToVirtualMap (snd (updateDom 0 (JArr [plain_element ''div'' [plain_element ''span'' []]])
        initial_world)) 2 \<noteq> Some (plain_element ''div'' [plain_element ''span'' []])"
  using forward_table_keyed_by_missing_id
  by (simp add: plain_element_def)

end
